theory Spec2Isabelle
  imports Main "HOL-Library.Word" "HOL-Library.Sublist"
begin

unbundle bit_operations_syntax

section \<open>JavaScript strings\<close>

text \<open>
  A JavaScript string is a sequence of 16-bit code units. String literals of the source
  that are plain ASCII are written with \<open>js\<close>.
\<close>

type_synonym code_unit = "16 word"
type_synonym jsstring = "code_unit list"

definition js :: "string \<Rightarrow> jsstring" where
  "js s = map of_char s"

text \<open>
  \<open>String.prototype.trim\<close> strips WhiteSpace and LineTerminator code points from both
  ends (ECMAScript: TAB, VT, FF, SP, NBSP, ZWNBSP, the Unicode space separators, LF, CR,
  LS, PS). All of them are single code units.
\<close>

definition isWhiteSpace :: "code_unit \<Rightarrow> bool" where
  "isWhiteSpace c \<longleftrightarrow>
     c = 0x0009 \<or> c = 0x000A \<or> c = 0x000B \<or> c = 0x000C \<or> c = 0x000D \<or> c = 0x0020 \<or>
     c = 0x00A0 \<or> c = 0x1680 \<or> (0x2000 \<le> c \<and> c \<le> 0x200A) \<or> c = 0x2028 \<or>
     c = 0x2029 \<or> c = 0x202F \<or> c = 0x205F \<or> c = 0x3000 \<or> c = 0xFEFF"

definition trim :: "jsstring \<Rightarrow> jsstring" where
  "trim s = rev (dropWhile isWhiteSpace (rev (dropWhile isWhiteSpace s)))"

text \<open>
  \<open>s.split('\n')\<close>: the pieces between line feeds; never an empty array
  (\<open>''.split('\n')\<close> is \<open>['']\<close>).
\<close>

function split_lf :: "jsstring \<Rightarrow> jsstring list" where
  "split_lf s =
     takeWhile (\<lambda>c. c \<noteq> 0x000A) s #
       (case dropWhile (\<lambda>c. c \<noteq> 0x000A) s of [] \<Rightarrow> [] | _ # rest \<Rightarrow> split_lf rest)"
  by pat_completeness auto
termination
proof (relation "measure length")
  show "wf (measure length)" by simp
next
  fix s :: jsstring and x rest
  assume "dropWhile (\<lambda>c. c \<noteq> 0x000A) s = x # rest"
  moreover have "length (dropWhile (\<lambda>c. c \<noteq> 0x000A) s) \<le> length s"
    by (rule length_dropWhile_le)
  ultimately show "(rest, s) \<in> measure length" by simp
qed

declare split_lf.simps [simp del]

text \<open>
  \<open>s.includes(t)\<close>: some position of \<open>s\<close> at which \<open>t\<close> starts.
\<close>

fun starts_with :: "jsstring \<Rightarrow> jsstring \<Rightarrow> bool" where
  "starts_with s [] = True"
| "starts_with [] (d # t) = False"
| "starts_with (c # s) (d # t) = (c = d \<and> starts_with s t)"

fun js_includes :: "jsstring \<Rightarrow> jsstring \<Rightarrow> bool" where
  "js_includes [] t = (t = [])"
| "js_includes (c # s) t = (starts_with (c # s) t \<or> js_includes s t)"

text \<open>
  \<open>String.prototype.toLowerCase\<close> maps the string through the Unicode lower-case tables
  of the platform, which are not part of this program. The mapping of a non-empty string
  is a parameter \<open>lc\<close>; the empty string maps to itself.
\<close>

definition toLowerCase :: "(jsstring \<Rightarrow> jsstring) \<Rightarrow> jsstring \<Rightarrow> jsstring" where
  "toLowerCase lc s = (if s = [] then [] else lc s)"

text \<open>
  \<open>Date.now().toString()\<close>: the decimal digits of an integer number of milliseconds.
\<close>

fun digits :: "nat \<Rightarrow> jsstring" where
  "digits n = (if n < 10 then [0x0030 + of_nat n]
               else digits (n div 10) @ [0x0030 + of_nat (n mod 10)])"

declare digits.simps [simp del]

definition toString :: "int \<Rightarrow> jsstring" where
  "toString i = (if i < 0 then 0x002D # digits (nat (- i)) else digits (nat i))"

section \<open>JSON values, \<open>JSON.stringify\<close> and \<open>JSON.parse\<close>\<close>

text \<open>
  The values \<open>JSON.parse\<close> can return. An object is kept as its members in the order
  of the text; a property read takes the last member of that name, as the object built by
  \<open>JSON.parse\<close> does. A number is kept as the text of its literal: this program never
  reads a number, so the double it denotes is not computed.
\<close>

datatype json =
    JNull
  | JBool bool
  | JNum jsstring
  | JStr jsstring
  | JArr "json list"
  | JObj "(jsstring \<times> json) list"

subsection \<open>Quoting a string (QuoteJSONString)\<close>

definition isLeadingSurrogate :: "code_unit \<Rightarrow> bool" where
  "isLeadingSurrogate c \<longleftrightarrow> 0xD800 \<le> c \<and> c \<le> 0xDBFF"

definition isTrailingSurrogate :: "code_unit \<Rightarrow> bool" where
  "isTrailingSurrogate c \<longleftrightarrow> 0xDC00 \<le> c \<and> c \<le> 0xDFFF"

definition hexDigit :: "code_unit \<Rightarrow> code_unit" where
  "hexDigit n = (if n < 10 then 0x0030 + n else 0x0057 + n)"

text \<open>UnicodeEscape: backslash, \<open>u\<close> and four lower-case hexadecimal digits.\<close>

definition unicodeEscape :: "code_unit \<Rightarrow> jsstring" where
  "unicodeEscape c =
     [0x005C, 0x0075,
      hexDigit (drop_bit 12 c), hexDigit (drop_bit 8 c AND 0x000F),
      hexDigit (drop_bit 4 c AND 0x000F), hexDigit (c AND 0x000F)]"

text \<open>
  One code unit that is not half of a surrogate pair: the short escapes of the table,
  a Unicode escape for the other control characters and for a lone surrogate, and the
  code unit itself otherwise.
\<close>

definition quoteUnit :: "code_unit \<Rightarrow> jsstring" where
  "quoteUnit c =
     (if c = 0x0008 then [0x005C, 0x0062]
      else if c = 0x0009 then [0x005C, 0x0074]
      else if c = 0x000A then [0x005C, 0x006E]
      else if c = 0x000C then [0x005C, 0x0066]
      else if c = 0x000D then [0x005C, 0x0072]
      else if c = 0x0022 then [0x005C, 0x0022]
      else if c = 0x005C then [0x005C, 0x005C]
      else if c < 0x0020 \<or> isLeadingSurrogate c \<or> isTrailingSurrogate c then unicodeEscape c
      else [c])"

fun quoteBody :: "jsstring \<Rightarrow> jsstring" where
  "quoteBody [] = []"
| "quoteBody [c] = quoteUnit c"
| "quoteBody (c # d # s) =
     (if isLeadingSurrogate c \<and> isTrailingSurrogate d then c # d # quoteBody s
      else quoteUnit c @ quoteBody (d # s))"

definition quoteJSONString :: "jsstring \<Rightarrow> jsstring" where
  "quoteJSONString s = 0x0022 # quoteBody s @ [0x0022]"

subsection \<open>\<open>JSON.stringify\<close>\<close>

text \<open>
  Without indentation: members and elements are separated by a comma only, a name and its
  value by a colon only. The program passes arrays of records with string fields, and
  for those the function is \<open>JSON.stringify\<close>. On other values it is kept simple: a
  number prints as its literal, and the members of an object print in the order given.
\<close>

fun commaSep :: "jsstring list \<Rightarrow> jsstring" where
  "commaSep [] = []"
| "commaSep [x] = x"
| "commaSep (x # y # ys) = x @ 0x002C # commaSep (y # ys)"

fun JSON_stringify :: "json \<Rightarrow> jsstring" where
  "JSON_stringify JNull = js ''null''"
| "JSON_stringify (JBool b) = (if b then js ''true'' else js ''false'')"
| "JSON_stringify (JNum lit) = lit"
| "JSON_stringify (JStr s) = quoteJSONString s"
| "JSON_stringify (JArr vs) = 0x005B # commaSep (map JSON_stringify vs) @ [0x005D]"
| "JSON_stringify (JObj ms) =
     0x007B # commaSep (map (\<lambda>(k, v). quoteJSONString k @ 0x003A # JSON_stringify v) ms)
       @ [0x007D]"

subsection \<open>\<open>JSON.parse\<close>\<close>

text \<open>JSON white space: tab, line feed, carriage return, space.\<close>

definition isJSONWhiteSpace :: "code_unit \<Rightarrow> bool" where
  "isJSONWhiteSpace c \<longleftrightarrow> c = 0x0009 \<or> c = 0x000A \<or> c = 0x000D \<or> c = 0x0020"

definition skip_ws :: "jsstring \<Rightarrow> jsstring" where
  "skip_ws cs = dropWhile isJSONWhiteSpace cs"

definition hexValue :: "code_unit \<Rightarrow> code_unit option" where
  "hexValue c =
     (if 0x0030 \<le> c \<and> c \<le> 0x0039 then Some (c - 0x0030)
      else if 0x0061 \<le> c \<and> c \<le> 0x0066 then Some (c - 0x0057)
      else if 0x0041 \<le> c \<and> c \<le> 0x0046 then Some (c - 0x0037)
      else None)"

definition hex4 :: "code_unit \<Rightarrow> code_unit \<Rightarrow> code_unit \<Rightarrow> code_unit \<Rightarrow> code_unit option" where
  "hex4 a b c d =
     (case (hexValue a, hexValue b, hexValue c, hexValue d) of
        (Some h3, Some h2, Some h1, Some h0) \<Rightarrow>
          Some (push_bit 12 h3 OR push_bit 8 h2 OR push_bit 4 h1 OR h0)
      | _ \<Rightarrow> None)"

text \<open>The character after a backslash, other than \<open>u\<close>.\<close>

definition unescape :: "code_unit \<Rightarrow> code_unit option" where
  "unescape e =
     (if e = 0x0022 then Some 0x0022
      else if e = 0x005C then Some 0x005C
      else if e = 0x002F then Some 0x002F
      else if e = 0x0062 then Some 0x0008
      else if e = 0x0066 then Some 0x000C
      else if e = 0x006E then Some 0x000A
      else if e = 0x0072 then Some 0x000D
      else if e = 0x0074 then Some 0x0009
      else None)"

definition consFst :: "'a \<Rightarrow> ('a list \<times> 'b) option \<Rightarrow> ('a list \<times> 'b) option" where
  "consFst x r = (case r of None \<Rightarrow> None | Some (xs, rest) \<Rightarrow> Some (x # xs, rest))"

text \<open>
  The characters of a string literal after its opening quote, up to the closing quote:
  the string denoted and the text that follows. \<open>None\<close> is a SyntaxError (no closing
  quote, a raw control character, a bad escape).
\<close>

fun parse_chars :: "jsstring \<Rightarrow> (jsstring \<times> jsstring) option" where
  "parse_chars [] = None"
| "parse_chars (c # cs) =
     (if c = 0x0022 then Some ([], cs)
      else if c = 0x005C then
        (case cs of
           [] \<Rightarrow> None
         | e # es \<Rightarrow>
             if e = 0x0075 then
               (case es of
                  h3 # h2 # h1 # h0 # r \<Rightarrow>
                    (case hex4 h3 h2 h1 h0 of
                       None \<Rightarrow> None
                     | Some u \<Rightarrow> consFst u (parse_chars r))
                | _ \<Rightarrow> None)
             else
               (case unescape e of
                  None \<Rightarrow> None
                | Some u \<Rightarrow> consFst u (parse_chars es)))
      else if c < 0x0020 then None
      else consFst c (parse_chars cs))"

text \<open>
  A number literal: \<open>-? (0 | [1-9][0-9]*) (. [0-9]+)? ([eE] [+-]? [0-9]+)?\<close>.
\<close>

definition isDigit :: "code_unit \<Rightarrow> bool" where
  "isDigit c \<longleftrightarrow> 0x0030 \<le> c \<and> c \<le> 0x0039"

definition parse_int_part :: "jsstring \<Rightarrow> (jsstring \<times> jsstring) option" where
  "parse_int_part cs =
     (case cs of
        [] \<Rightarrow> None
      | c # r \<Rightarrow>
          if c = 0x0030 then Some ([c], r)
          else if isDigit c then Some (c # takeWhile isDigit r, dropWhile isDigit r)
          else None)"

definition parse_frac_part :: "jsstring \<Rightarrow> (jsstring \<times> jsstring) option" where
  "parse_frac_part cs =
     (case cs of
        c # d # r \<Rightarrow>
          if c = 0x002E then
            (if isDigit d then Some (c # d # takeWhile isDigit r, dropWhile isDigit r) else None)
          else Some ([], cs)
      | [c] \<Rightarrow> if c = 0x002E then None else Some ([], cs)
      | [] \<Rightarrow> Some ([], cs))"

definition parse_exp_digits :: "jsstring \<Rightarrow> jsstring \<Rightarrow> (jsstring \<times> jsstring) option" where
  "parse_exp_digits pre cs =
     (case cs of
        d # r \<Rightarrow> if isDigit d then Some (pre @ d # takeWhile isDigit r, dropWhile isDigit r) else None
      | [] \<Rightarrow> None)"

definition parse_exp_part :: "jsstring \<Rightarrow> (jsstring \<times> jsstring) option" where
  "parse_exp_part cs =
     (case cs of
        [] \<Rightarrow> Some ([], cs)
      | c # r \<Rightarrow>
          if c = 0x0065 \<or> c = 0x0045 then
            (case r of
               [] \<Rightarrow> None
             | s # r' \<Rightarrow>
                 if s = 0x002B \<or> s = 0x002D then parse_exp_digits [c, s] r'
                 else parse_exp_digits [c] r)
          else Some ([], cs))"

definition parse_number :: "jsstring \<Rightarrow> (jsstring \<times> jsstring) option" where
  "parse_number cs =
     (let (sign, r0) = (case cs of c # r \<Rightarrow> if c = 0x002D then ([c], r) else ([], cs) | [] \<Rightarrow> ([], cs))
      in case parse_int_part r0 of
           None \<Rightarrow> None
         | Some (ip, r1) \<Rightarrow>
             (case parse_frac_part r1 of
                None \<Rightarrow> None
              | Some (fp, r2) \<Rightarrow>
                  (case parse_exp_part r2 of
                     None \<Rightarrow> None
                   | Some (ep, r3) \<Rightarrow> Some (sign @ ip @ fp @ ep, r3))))"

text \<open>
  A value, the elements of a non-empty array after its bracket, and the members of a
  non-empty object after its brace. Each returns what it read and the text that follows.
  A recursive call on the text left by another call is made only when that text is
  shorter; it always is, since every value consumes at least one character.
\<close>

function parse_value :: "jsstring \<Rightarrow> (json \<times> jsstring) option"
  and parse_elements :: "jsstring \<Rightarrow> (json list \<times> jsstring) option"
  and parse_members :: "jsstring \<Rightarrow> ((jsstring \<times> json) list \<times> jsstring) option"
where
  "parse_value [] = None"
| "parse_value (c # r) =
     (if c = 0x0022 then
        (case parse_chars r of None \<Rightarrow> None | Some (s, r') \<Rightarrow> Some (JStr s, r'))
      else if c = 0x005B then
        (case skip_ws r of
           [] \<Rightarrow> None
         | d # r1 \<Rightarrow>
             if d = 0x005D then Some (JArr [], r1)
             else (case parse_elements (d # r1) of
                     None \<Rightarrow> None
                   | Some (vs, r2) \<Rightarrow> Some (JArr vs, r2)))
      else if c = 0x007B then
        (case skip_ws r of
           [] \<Rightarrow> None
         | d # r1 \<Rightarrow>
             if d = 0x007D then Some (JObj [], r1)
             else (case parse_members (d # r1) of
                     None \<Rightarrow> None
                   | Some (ms, r2) \<Rightarrow> Some (JObj ms, r2)))
      else if starts_with (c # r) (js ''null'') then Some (JNull, drop 4 (c # r))
      else if starts_with (c # r) (js ''true'') then Some (JBool True, drop 4 (c # r))
      else if starts_with (c # r) (js ''false'') then Some (JBool False, drop 5 (c # r))
      else (case parse_number (c # r) of
              None \<Rightarrow> None
            | Some (lit, r') \<Rightarrow> Some (JNum lit, r')))"
| "parse_elements cs =
     (case parse_value cs of
        None \<Rightarrow> None
      | Some (v, r) \<Rightarrow>
          (case skip_ws r of
             [] \<Rightarrow> None
           | d # r1 \<Rightarrow>
               if d = 0x005D then Some ([v], r1)
               else if d = 0x002C \<and> length r1 < length cs then
                 consFst v (parse_elements (skip_ws r1))
               else None))"
| "parse_members cs =
     (case cs of
        [] \<Rightarrow> None
      | q # r \<Rightarrow>
          if q = 0x0022 then
            (case parse_chars r of
               None \<Rightarrow> None
             | Some (k, r0) \<Rightarrow>
                 (case skip_ws r0 of
                    [] \<Rightarrow> None
                  | col # r1 \<Rightarrow>
                      if col = 0x003A \<and> length r1 < length cs then
                        (case parse_value (skip_ws r1) of
                           None \<Rightarrow> None
                         | Some (v, r2) \<Rightarrow>
                             (case skip_ws r2 of
                                [] \<Rightarrow> None
                              | d # r3 \<Rightarrow>
                                  if d = 0x007D then Some ([(k, v)], r3)
                                  else if d = 0x002C \<and> length r3 < length cs then
                                    consFst (k, v) (parse_members (skip_ws r3))
                                  else None))
                      else None))
          else None)"
  by pat_completeness auto
termination
proof -
  have sk: "length (skip_ws r) \<le> length r" for r
    unfolding skip_ws_def by (rule length_dropWhile_le)
  have sk1: "length r1 < length r" if "skip_ws r = d # r1" for r d r1
    using sk [of r] that by simp
  have sk2: "length (skip_ws r) < n" if "length r < n" for r n
    using sk [of r] that by simp
  show ?thesis
    by (relation "measure (\<lambda>x. case x of
          Inl cs \<Rightarrow> 2 * length cs
        | Inr (Inl cs) \<Rightarrow> 2 * length cs + 1
        | Inr (Inr cs) \<Rightarrow> 2 * length cs + 1)")
      (auto dest: sk1 sk2)
qed

declare parse_elements.simps [simp del] parse_members.simps [simp del]

text \<open>
  \<open>JSON.parse(text)\<close>: one value between optional white space, and nothing else.
  \<open>None\<close> is the SyntaxError it throws.
\<close>

definition JSON_parse :: "jsstring \<Rightarrow> json option" where
  "JSON_parse txt =
     (case parse_value (skip_ws txt) of
        None \<Rightarrow> None
      | Some (v, r) \<Rightarrow> if skip_ws r = [] then Some v else None)"

text \<open>Reading a property of a parsed object: \<open>None\<close> is \<open>undefined\<close>.\<close>

definition get_prop :: "(jsstring \<times> json) list \<Rightarrow> jsstring \<Rightarrow> json option" where
  "get_prop ms k = map_of (rev ms) k"

section \<open>The application state (App.tsx)\<close>

text \<open>
  \<open>interface Word\<close> and \<open>interface Sentence\<close>: every field is a string. The field
  names carry a prefix, since both interfaces use the same names.
\<close>

record Word =
  w_id :: jsstring
  w_myanmar :: jsstring
  w_indonesian :: jsstring
  w_type :: jsstring

record Sentence =
  s_id :: jsstring
  s_myanmar :: jsstring
  s_indonesian :: jsstring

text \<open>
  The values that can reach the \<open>error\<close> cell. It is declared \<open>string | null\<close>, but
  the \<open>catch\<close> block of \<open>handleSaveWord\<close> passes it the \<open>message\<close> of whatever was
  thrown, unchecked: \<open>undefined\<close>, \<open>null\<close>, a string, or any other value. Of another
  value (a boolean, a number, an object) the program reads nothing but its truthiness,
  which \<open>JSOther\<close> carries.
\<close>

datatype jsvalue =
    JSUndefined
  | JSNull
  | JSString jsstring
  | JSOther bool

text \<open>\<open>ToBoolean\<close>, as \<open>error && ...\<close> applies it.\<close>

definition truthy :: "jsvalue \<Rightarrow> bool" where
  "truthy v =
     (case v of
        JSUndefined \<Rightarrow> False
      | JSNull \<Rightarrow> False
      | JSString s \<Rightarrow> s \<noteq> []
      | JSOther b \<Rightarrow> b)"

text \<open>The six \<open>useState\<close> cells of the component; \<open>error\<close> starts as \<open>null\<close>.\<close>

record app_state =
  newMyanmarWord :: jsstring
  words :: "Word list"
  searchTerm :: jsstring
  generatedSentences :: "Sentence list"
  loading :: bool
  error :: jsvalue

text \<open>
  What the code catches. The \<open>catch\<close> block of \<open>handleSaveWord\<close> tells three kinds of
  thrown value apart: an instance of \<open>Error\<close> (with the value of its \<open>message\<close>), another
  object in which \<open>'message' in err.response.data.error\<close> holds (with the value of that
  property, which the code reads \<open>as string\<close> without a check), and anything else.
\<close>

datatype thrown =
    ErrorInstance jsvalue
  | ResponseError jsvalue
  | OtherThrown

text \<open>
  A call of \<open>ai.models.generateContent\<close>: the model name, the prompt text, and whether
  the JSON response schema of the translation is attached.
\<close>

record request =
  model :: jsstring
  prompt :: jsstring
  json_schema :: bool

text \<open>
  The surroundings of the component. \<open>ai\<close> is the module-level client, \<open>None\<close> when
  \<open>GEMINI_API_KEY\<close> is not set; a call either throws or returns a response whose
  \<open>text\<close> is a string or \<open>undefined\<close>. \<open>date_now\<close> is the reading of \<open>Date.now()\<close>,
  \<open>random_sort\<close> the outcome of sorting with the random comparator, \<open>lowerCase\<close> the
  platform's lower-case mapping, and the two messages are the engine's texts for the
  SyntaxError of \<open>JSON.parse\<close> and for the TypeError of destructuring \<open>null\<close>.
\<close>

record platform =
  ai :: "(request \<Rightarrow> thrown + jsstring option) option"
  date_now :: int
  random_sort :: "Word list \<Rightarrow> Word list"
  lowerCase :: "jsstring \<Rightarrow> jsstring"
  syntaxErrorMessage :: "jsstring \<Rightarrow> jsstring"
  typeErrorMessage :: jsstring

text \<open>
  A handler is the sequence of calls it makes on the state setters and on the AI client,
  in program order. \<open>console.error\<close> is left out: it touches no state.
\<close>

datatype action =
    SetNewMyanmarWord jsstring
  | SetWords "Word list"
  | SetSearchTerm jsstring
  | SetGeneratedSentences "Sentence list"
  | SetLoading bool
  | SetError jsvalue
  | GenerateContent request

fun apply_action :: "action \<Rightarrow> app_state \<Rightarrow> app_state" where
  "apply_action (SetNewMyanmarWord s) st = st\<lparr>newMyanmarWord := s\<rparr>"
| "apply_action (SetWords ws) st = st\<lparr>words := ws\<rparr>"
| "apply_action (SetSearchTerm s) st = st\<lparr>searchTerm := s\<rparr>"
| "apply_action (SetGeneratedSentences ss) st = st\<lparr>generatedSentences := ss\<rparr>"
| "apply_action (SetLoading b) st = st\<lparr>loading := b\<rparr>"
| "apply_action (SetError e) st = st\<lparr>error := e\<rparr>"
| "apply_action (GenerateContent req) st = st"

fun run :: "action list \<Rightarrow> app_state \<Rightarrow> app_state" where
  "run [] st = st"
| "run (a # as) st = run as (apply_action a st)"

text \<open>
  The view shows the red banner \<open>{error && <div>{error}</div>}\<close>: the value of the
  cell when it is truthy, and nothing (\<open>None\<close>) otherwise.
\<close>

definition errorBanner :: "app_state \<Rightarrow> jsvalue option" where
  "errorBanner st = (if truthy (error st) then Some (error st) else None)"

section \<open>The handlers\<close>

definition apiKeyMissing :: jsstring where
  "apiKeyMissing = js ''API Key is missing. Please configure GEMINI_API_KEY.''"

definition needTwoWords :: jsstring where
  "needTwoWords = js ''Please add at least two words to generate a sentence.''"

definition failedToSave :: jsstring where
  "failedToSave = js ''Failed to save word. Please try again.''"

definition failedToGenerate :: jsstring where
  "failedToGenerate = js ''Failed to generate sentence. Please try again.''"

definition translatePrompt :: "jsstring \<Rightarrow> jsstring" where
  "translatePrompt w =
     js ''Translate the Myanmar word/phrase '' @ [0x0022] @ w @ [0x0022] @
     js '' to Indonesian and detect its word type (Noun, Verb, Adjective, or Slang). '' @
     js ''Provide the output in JSON format with '' @ [0x0027] @ js ''indonesianTranslation'' @
     [0x0027] @ js '' and '' @ [0x0027] @ js ''wordType'' @ [0x0027] @ js '' fields.''"

definition translateRequest :: "jsstring \<Rightarrow> request" where
  "translateRequest w =
     \<lparr>model = js ''gemini-3-flash-preview'', prompt = translatePrompt w, json_schema = True\<rparr>"

text \<open>
  \<open>const { indonesianTranslation, wordType } = jsonResponse\<close> reads two properties.
  Only an object has them; a string, a number, a boolean or an array gives \<open>undefined\<close>
  (\<open>None\<close>). Destructuring \<open>null\<close> throws and is handled by the caller.
\<close>

definition property :: "json \<Rightarrow> jsstring \<Rightarrow> json option" where
  "property v k = (case v of JObj ms \<Rightarrow> get_prop ms k | _ \<Rightarrow> None)"

text \<open>
  The body of the \<open>try\<close> block after the call has settled with \<open>response\<close>: the value
  thrown (\<open>Inl\<close>), or the setter calls made. \<open>JSON.parse(undefined)\<close> parses the text
  \<open>undefined\<close>.

  \<open>jsonResponse\<close> has type \<open>any\<close>, so TypeScript lets its two properties into the
  \<open>string\<close> fields of the new \<open>Word\<close> without a check. When one of them is not a
  string the record built is not a value of \<open>interface Word\<close>, and the result is \<open>None\<close>:
  the run leaves the states this typed model describes.
\<close>

definition saveWord_try ::
  "platform \<Rightarrow> app_state \<Rightarrow> thrown + jsstring option \<Rightarrow> (thrown + action list) option" where
  "saveWord_try env st response =
     (case response of
        Inl e \<Rightarrow> Some (Inl e)
      | Inr text \<Rightarrow>
          (let txt = (case text of None \<Rightarrow> js ''undefined'' | Some t \<Rightarrow> t) in
           case JSON_parse txt of
             None \<Rightarrow> Some (Inl (ErrorInstance (JSString (syntaxErrorMessage env txt))))
           | Some jsonResponse \<Rightarrow>
               if jsonResponse = JNull
               then Some (Inl (ErrorInstance (JSString (typeErrorMessage env))))
               else
                 (case (property jsonResponse (js ''indonesianTranslation''),
                        property jsonResponse (js ''wordType'')) of
                    (Some (JStr indonesianTranslation), Some (JStr wordType)) \<Rightarrow>
                      Some (Inr
                        [SetWords
                           (\<lparr>w_id = toString (date_now env),
                             w_myanmar = newMyanmarWord st,
                             w_indonesian = indonesianTranslation,
                             w_type = wordType\<rparr> # words st),
                         SetNewMyanmarWord []])
                  | _ \<Rightarrow> None)))"

text \<open>
  The \<open>catch\<close> block of \<open>handleSaveWord\<close>: \<open>errorMessage\<close> starts as the fallback text
  and is overwritten with the thrown value's message, whatever that is.
\<close>

definition saveWord_catch :: "thrown \<Rightarrow> action list" where
  "saveWord_catch err =
     [SetError (case err of
        ErrorInstance message \<Rightarrow> message
      | ResponseError message \<Rightarrow> message
      | OtherThrown \<Rightarrow> JSString failedToSave)]"

definition handleSaveWord :: "platform \<Rightarrow> app_state \<Rightarrow> action list option" where
  "handleSaveWord env st =
     (if trim (newMyanmarWord st) = [] then Some []
      else
        (case ai env of
           None \<Rightarrow> Some [SetLoading True, SetError JSNull, SetError (JSString apiKeyMissing), SetLoading False]
         | Some generateContent \<Rightarrow>
             (let req = translateRequest (newMyanmarWord st) in
              case saveWord_try env st (generateContent req) of
                None \<Rightarrow> None
              | Some (Inl err) \<Rightarrow>
                  Some ([SetLoading True, SetError JSNull, GenerateContent req]
                        @ saveWord_catch err @ [SetLoading False])
              | Some (Inr calls) \<Rightarrow>
                  Some ([SetLoading True, SetError JSNull, GenerateContent req]
                        @ calls @ [SetLoading False]))))"

definition handleDeleteWord :: "jsstring \<Rightarrow> app_state \<Rightarrow> action list" where
  "handleDeleteWord i st = [SetWords (filter (\<lambda>word. w_id word \<noteq> i) (words st))]"

text \<open>\<open>filteredWords\<close> is computed at every render from \<open>words\<close> and \<open>searchTerm\<close>.\<close>

definition filteredWords :: "platform \<Rightarrow> app_state \<Rightarrow> Word list" where
  "filteredWords env st =
     filter (\<lambda>word.
        js_includes (toLowerCase (lowerCase env) (w_myanmar word))
                    (toLowerCase (lowerCase env) (searchTerm st)) \<or>
        js_includes (toLowerCase (lowerCase env) (w_indonesian word))
                    (toLowerCase (lowerCase env) (searchTerm st)))
       (words st)"

text \<open>The \<open>onChange\<close> handler of the word input box.\<close>

definition handleInputChange :: "jsstring \<Rightarrow> action list" where
  "handleInputChange v = [SetNewMyanmarWord v]"

text \<open>The \<open>onChange\<close> handler of the search box.\<close>

definition handleSearchChange :: "jsstring \<Rightarrow> action list" where
  "handleSearchChange v = [SetSearchTerm v]"

text \<open>\<open>xs.join(', ')\<close>\<close>

fun join_comma :: "jsstring list \<Rightarrow> jsstring" where
  "join_comma [] = []"
| "join_comma [x] = x"
| "join_comma (x # y # ys) = x @ js '', '' @ join_comma (y # ys)"

definition sentencePrompt :: "Word list \<Rightarrow> jsstring" where
  "sentencePrompt selectedWords =
     js ''Strictly adhering only to the following words: '' @ [0x0022] @
     join_comma (map w_indonesian selectedWords) @ [0x0022] @
     js '', construct a grammatically correct sentence or question or phrase or clause or '' @
     js ''slang of Indonesian language, without adding any other words. Output: Line 1: '' @
     js ''Myanmar Translation of the sentence. Line 2: Indonesian Sentence.''"

definition sentenceRequest :: "platform \<Rightarrow> app_state \<Rightarrow> request" where
  "sentenceRequest env st =
     (let shuffled = random_sort env (words st);
          selectedWords = take (min (length shuffled) 4) shuffled
      in \<lparr>model = js ''gemini-3-flash-preview'', prompt = sentencePrompt selectedWords,
          json_schema = False\<rparr>)"

text \<open>
  The record built from the response text: the first two pieces of
  \<open>generatedText.split('\n').map(s => s.trim())\<close>, each replaced by the empty string
  when it is missing or empty (\<open>x || ""\<close>).
\<close>

definition newSentence :: "platform \<Rightarrow> jsstring \<Rightarrow> Sentence" where
  "newSentence env generatedText =
     (let pieces = map trim (split_lf generatedText) in
      \<lparr>s_id = toString (date_now env),
       s_myanmar = (case pieces of [] \<Rightarrow> [] | myanmarSentence # _ \<Rightarrow> myanmarSentence),
       s_indonesian = (case pieces of _ # indonesianSentence # _ \<Rightarrow> indonesianSentence | _ \<Rightarrow> [])\<rparr>)"

text \<open>
  \<open>handleGenerateSentence\<close>. Whatever the \<open>try\<close> block throws (the call failing, or
  \<open>split\<close> on an \<open>undefined\<close> text) ends in the same fixed message.
\<close>

definition handleGenerateSentence :: "platform \<Rightarrow> app_state \<Rightarrow> action list" where
  "handleGenerateSentence env st =
     (case ai env of
        None \<Rightarrow> [SetError (JSString apiKeyMissing), SetLoading False]
      | Some generateContent \<Rightarrow>
          if length (words st) < 2 then
            [SetError (JSString needTwoWords)]
          else
            (let req = sentenceRequest env st in
             [SetLoading True, SetError JSNull, GenerateContent req] @
             (case generateContent req of
                Inr (Some generatedText) \<Rightarrow>
                  [SetGeneratedSentences (newSentence env generatedText # generatedSentences st)]
              | _ \<Rightarrow> [SetError (JSString failedToGenerate)]) @
             [SetLoading False]))"

definition handleDeleteSentence :: "jsstring \<Rightarrow> app_state \<Rightarrow> action list" where
  "handleDeleteSentence i st =
     [SetGeneratedSentences (filter (\<lambda>sentence. s_id sentence \<noteq> i) (generatedSentences st))]"

section \<open>Persistence\<close>

text \<open>\<open>localStorage\<close>: a map from keys to texts.\<close>

type_synonym storage = "jsstring \<rightharpoonup> jsstring"

text \<open>
  The value \<open>JSON.stringify\<close> walks for a record: its own properties in the order of the
  object literal that built it.
\<close>

definition word_json :: "Word \<Rightarrow> json" where
  "word_json w =
     JObj [(js ''id'', JStr (w_id w)), (js ''myanmar'', JStr (w_myanmar w)),
           (js ''indonesian'', JStr (w_indonesian w)), (js ''type'', JStr (w_type w))]"

definition sentence_json :: "Sentence \<Rightarrow> json" where
  "sentence_json x =
     JObj [(js ''id'', JStr (s_id x)), (js ''myanmar'', JStr (s_myanmar x)),
           (js ''indonesian'', JStr (s_indonesian x))]"

text \<open>
  The two save effects. An effect with dependency \<open>[words]\<close> runs after a render in which
  \<open>words\<close> is a new array, which every \<open>setWords\<close> call of this program passes; it
  writes the collection as it then is.
\<close>

fun isSetWords :: "action \<Rightarrow> bool" where
  "isSetWords (SetWords ws) = True"
| "isSetWords _ = False"

fun isSetGeneratedSentences :: "action \<Rightarrow> bool" where
  "isSetGeneratedSentences (SetGeneratedSentences ss) = True"
| "isSetGeneratedSentences _ = False"

fun isGenerateContent :: "action \<Rightarrow> bool" where
  "isGenerateContent (GenerateContent req) = True"
| "isGenerateContent _ = False"

definition save_effects :: "action list \<Rightarrow> app_state \<Rightarrow> storage \<Rightarrow> storage" where
  "save_effects calls st sto =
     (let sto1 = (if list_ex isSetWords calls
                  then sto(js ''words'' \<mapsto> JSON_stringify (JArr (map word_json (words st))))
                  else sto)
      in if list_ex isSetGeneratedSentences calls
         then sto1(js ''sentences'' \<mapsto> JSON_stringify (JArr (map sentence_json (generatedSentences st))))
         else sto1)"

text \<open>A handler's calls take effect, the component renders, the save effects run.\<close>

definition dispatch :: "action list \<Rightarrow> app_state \<times> storage \<Rightarrow> app_state \<times> storage" where
  "dispatch calls p = (let st' = run calls (fst p) in (st', save_effects calls st' (snd p)))"

text \<open>
  The load effect, for one key: nothing stored (or the empty text, which is falsy), a
  SyntaxError from \<open>JSON.parse\<close>, a parsed value that is no array of records of the
  declared interface (it would become the state unchecked; the typed state cannot hold
  it), or the collection that becomes the state.
\<close>

datatype 'a loaded = NothingStored | ParseThrows | NotOfInterface | Loaded 'a

definition word_of_json :: "json \<Rightarrow> Word option" where
  "word_of_json v =
     (case (property v (js ''id''), property v (js ''myanmar''), property v (js ''indonesian''),
            property v (js ''type'')) of
        (Some (JStr i), Some (JStr m), Some (JStr n), Some (JStr t)) \<Rightarrow>
          Some \<lparr>w_id = i, w_myanmar = m, w_indonesian = n, w_type = t\<rparr>
      | _ \<Rightarrow> None)"

definition sentence_of_json :: "json \<Rightarrow> Sentence option" where
  "sentence_of_json v =
     (case (property v (js ''id''), property v (js ''myanmar''), property v (js ''indonesian'')) of
        (Some (JStr i), Some (JStr m), Some (JStr n)) \<Rightarrow>
          Some \<lparr>s_id = i, s_myanmar = m, s_indonesian = n\<rparr>
      | _ \<Rightarrow> None)"

definition load_key :: "(json \<Rightarrow> 'a option) \<Rightarrow> storage \<Rightarrow> jsstring \<Rightarrow> 'a list loaded" where
  "load_key of_json sto key =
     (case sto key of
        None \<Rightarrow> NothingStored
      | Some stored \<Rightarrow>
          if stored = [] then NothingStored
          else
            (case JSON_parse stored of
               None \<Rightarrow> ParseThrows
             | Some (JArr vs) \<Rightarrow>
                 (case those (map of_json vs) of
                    None \<Rightarrow> NotOfInterface
                  | Some xs \<Rightarrow> Loaded xs)
             | Some _ \<Rightarrow> NotOfInterface))"

definition load_words :: "storage \<Rightarrow> Word list loaded" where
  "load_words sto = load_key word_of_json sto (js ''words'')"

definition load_sentences :: "storage \<Rightarrow> Sentence list loaded" where
  "load_sentences sto = load_key sentence_of_json sto (js ''sentences'')"

section \<open>Notions of the specification\<close>





definition asciiLowerUnit :: "code_unit \<Rightarrow> code_unit" where
  "asciiLowerUnit c = (if 0x0041 \<le> c \<and> c \<le> 0x005A then c + 0x0020 else c)"

definition asciiLower :: "jsstring \<Rightarrow> jsstring" where
  "asciiLower s = map asciiLowerUnit s"

text \<open>
  The number that a text of decimal digits, with or without a minus sign in front,
  denotes. An id is the decimal text of a clock reading; reading it back tells the ids of
  different clock readings apart.
\<close>

definition digitsValue :: "jsstring \<Rightarrow> nat" where
  "digitsValue ds = foldl (\<lambda>n c. 10 * n + unat (c - 0x0030)) 0 ds"

definition numberOf :: "jsstring \<Rightarrow> int" where
  "numberOf s =
     (case s of
        [] \<Rightarrow> 0
      | c # cs \<Rightarrow> if c = 0x002D then - int (digitsValue cs) else int (digitsValue s))"

text \<open>
  The \<open>n\<close>-th newline-delimited line of a text (from 0); the empty string when the
  text has no such line.
\<close>

definition line :: "jsstring \<Rightarrow> nat \<Rightarrow> jsstring" where
  "line txt n = (if n < length (split_lf txt) then split_lf txt ! n else [])"

text \<open>Lines put together again, with a line feed between two neighbours.\<close>

fun join_lf :: "jsstring list \<Rightarrow> jsstring" where
  "join_lf [] = []"
| "join_lf [l] = l"
| "join_lf (l # m # ls) = l @ 0x000A # join_lf (m # ls)"

text \<open>
  A translate invocation fails: the handler gets as far as the call, and the call throws
  or the text of its response does not parse. The value is what is then thrown inside the
  \<open>try\<close> block; \<open>None\<close> when the invocation does not fail in this way.
\<close>

definition translateFailure :: "platform \<Rightarrow> app_state \<Rightarrow> thrown option" where
  "translateFailure env st =
     (if trim (newMyanmarWord st) = [] then None
      else
        (case ai env of
           None \<Rightarrow> None
         | Some generateContent \<Rightarrow>
             (case generateContent (translateRequest (newMyanmarWord st)) of
                Inl err \<Rightarrow> Some err
              | Inr None \<Rightarrow>
                  Some (ErrorInstance (JSString (syntaxErrorMessage env (js ''undefined''))))
              | Inr (Some txt) \<Rightarrow>
                  if JSON_parse txt = None
                  then Some (ErrorInstance (JSString (syntaxErrorMessage env txt)))
                  else None)))"

text \<open>
  A sentence-generation invocation fails: the handler gets as far as the call, and the
  call throws or its response carries no text.
\<close>

definition generateFailure :: "platform \<Rightarrow> app_state \<Rightarrow> bool" where
  "generateFailure env st =
     (case ai env of
        None \<Rightarrow> False
      | Some generateContent \<Rightarrow>
          2 \<le> length (words st) \<and>
          (case generateContent (sentenceRequest env st) of
             Inl err \<Rightarrow> True
           | Inr None \<Rightarrow> True
           | Inr (Some txt) \<Rightarrow> False))"

text \<open>
  The message of a thrown value: what it carries as its message, and the fallback text of
  \<open>handleSaveWord\<close> when it carries none.
\<close>

definition shownMessage :: "thrown \<Rightarrow> jsvalue" where
  "shownMessage err =
     (case err of
        ErrorInstance message \<Rightarrow> message
      | ResponseError message \<Rightarrow> message
      | OtherThrown \<Rightarrow> JSString failedToSave)"

section \<open>Texts written by \<open>JSON.stringify\<close>\<close>

text \<open>
  The text of a value starts with a character that is neither white space nor a closing
  bracket or brace; the text of one member of an object.
\<close>

definition starts_plain :: "jsstring \<Rightarrow> bool" where
  "starts_plain t \<longleftrightarrow> (\<exists>c u. t = c # u \<and> \<not> isJSONWhiteSpace c \<and> c \<noteq> 0x005D \<and> c \<noteq> 0x007D)"

definition member_text :: "jsstring \<times> json \<Rightarrow> jsstring" where
  "member_text m = (case m of (k, v) \<Rightarrow> quoteJSONString k @ 0x003A # JSON_stringify v)"

section \<open>Example surroundings and states\<close>

text \<open>No API key is configured. The platform lower-cases plain text.\<close>

definition no_key_platform :: platform where
  "no_key_platform =
     \<lparr>ai = None, date_now = 1700000000000, random_sort = (\<lambda>ws. ws), lowerCase = asciiLower,
      syntaxErrorMessage = (\<lambda>t. js ''Unexpected token''),
      typeErrorMessage = js ''Cannot destructure''\<rparr>"

definition empty_state :: app_state where
  "empty_state =
     \<lparr>newMyanmarWord = [], words = [], searchTerm = [], generatedSentences = [],
      loading = False, error = JSNull\<rparr>"

text \<open>
  A client that answers a translation request with the JSON text of the specification's
  example and a sentence request with a Myanmar line and an Indonesian line.
\<close>

definition makan_text :: jsstring where
  "makan_text = js ''{\"indonesianTranslation\":\"makan\",\"wordType\":\"Verb\"}''"

definition pagi_text :: jsstring where
  "pagi_text =
     [0x1019, 0x1004, 0x103A, 0x1039, 0x1002, 0x101C, 0x102C, 0x1015, 0x102B, 0x000A] @
     js ''Selamat pagi''"

definition example_client :: "request \<Rightarrow> thrown + jsstring option" where
  "example_client req = (if json_schema req then Inr (Some makan_text) else Inr (Some pagi_text))"

definition example_platform :: platform where
  "example_platform = no_key_platform\<lparr>ai := Some example_client\<rparr>"

text \<open>A client whose every call throws an \<open>Error\<close> with a message.\<close>

definition failing_platform :: platform where
  "failing_platform =
     no_key_platform\<lparr>ai := Some (\<lambda>req. Inl (ErrorInstance (JSString (js ''Failed to fetch''))))\<rparr>"

text \<open>A client whose every call throws an \<open>Error\<close> whose message is the empty string
  (\<open>new Error()\<close>, \<open>new Error('')\<close>).\<close>

definition silent_platform :: platform where
  "silent_platform = no_key_platform\<lparr>ai := Some (\<lambda>req. Inl (ErrorInstance (JSString [])))\<rparr>"

text \<open>
  A client whose every call throws an object that is no \<open>Error\<close> and whose
  \<open>response.data.error\<close> has a \<open>message\<close> property holding \<open>undefined\<close>.
\<close>

definition unset_message_platform :: platform where
  "unset_message_platform = no_key_platform\<lparr>ai := Some (\<lambda>req. Inl (ResponseError JSUndefined))\<rparr>"

text \<open>A client that answers with two lines ending in CR LF.\<close>

definition crlf_text :: jsstring where
  "crlf_text = js ''Apa kabar?'' @ [0x000D, 0x000A] @ js ''Apa kabar?''"

definition crlf_platform :: platform where
  "crlf_platform = no_key_platform\<lparr>ai := Some (\<lambda>req. Inr (Some crlf_text))\<rparr>"

definition word_air :: Word where
  "word_air =
     \<lparr>w_id = js ''1700000000001'', w_myanmar = [0x101B, 0x1031], w_indonesian = js ''air'',
      w_type = js ''Noun''\<rparr>"

definition word_minum :: Word where
  "word_minum =
     \<lparr>w_id = js ''1700000000002'', w_myanmar = [0x101E, 0x1031, 0x102C, 0x1000, 0x103A],
      w_indonesian = js ''minum'', w_type = js ''Verb''\<rparr>"

text \<open>Two words are stored and the input box holds the Myanmar word of the example.\<close>

definition two_word_state :: app_state where
  "two_word_state =
     empty_state\<lparr>newMyanmarWord := [0x1005, 0x102C, 0x1038], words := [word_minum, word_air]\<rparr>"

definition sentence_pagi :: Sentence where
  "sentence_pagi =
     \<lparr>s_id = js ''1700000000003'',
      s_myanmar = [0x1019, 0x1004, 0x103A, 0x1039, 0x1002, 0x101C, 0x102C, 0x1015, 0x102B],
      s_indonesian = js ''Selamat pagi''\<rparr>"

definition sentence_minum :: Sentence where
  "sentence_minum =
     \<lparr>s_id = js ''1700000000004'', s_myanmar = [0x101B, 0x1031, 0x101E, 0x1031, 0x102C, 0x1000, 0x103A],
      s_indonesian = js ''Minum air''\<rparr>"

text \<open>Two words and two sentences are stored.\<close>

definition stocked_state :: app_state where
  "stocked_state = two_word_state\<lparr>generatedSentences := [sentence_minum, sentence_pagi]\<rparr>"

text \<open>
  The word of the example is typed into an empty application and saved; it is typed and
  saved again while the clock still shows the same millisecond. Both records carry the
  same id.
\<close>

definition makan_word :: Word where
  "makan_word =
     \<lparr>w_id = toString 1700000000000, w_myanmar = [0x1005, 0x102C, 0x1038],
      w_indonesian = js ''makan'', w_type = js ''Verb''\<rparr>"

definition typed_state :: app_state where
  "typed_state = run (handleInputChange [0x1005, 0x102C, 0x1038]) empty_state"

definition once_saved_state :: app_state where
  "once_saved_state = empty_state\<lparr>words := [makan_word]\<rparr>"

definition same_id_state :: app_state where
  "same_id_state = empty_state\<lparr>words := [makan_word, makan_word]\<rparr>"






text \<open>The JSON text of the example with its two members in the other order.\<close>

definition makan_text_swapped :: jsstring where
  "makan_text_swapped = js ''{\"wordType\":\"Verb\",\"indonesianTranslation\":\"makan\"}''"

definition swapped_platform :: platform where
  "swapped_platform = no_key_platform\<lparr>ai := Some (\<lambda>req. Inr (Some makan_text_swapped))\<rparr>"

text \<open>The input box holds a space, an ideographic space and a tab.\<close>

definition blank_input_state :: app_state where
  "blank_input_state = empty_state\<lparr>newMyanmarWord := [0x0020, 0x3000, 0x0009]\<rparr>"

section \<open>Strings: facts used below\<close>



lemma js_includes_empty: "js_includes s []"
  by (cases s) auto

lemma trim_blank:
  assumes "\<forall>c \<in> set s. isWhiteSpace c"
  shows "trim s = []"
proof -
  from assms have "dropWhile isWhiteSpace s = []" by simp
  then have "trim s = rev (dropWhile isWhiteSpace (rev []))"
    by (simp only: trim_def)
  then show ?thesis by simp
qed

text \<open>
  \<open>trim\<close> takes white space off both ends and nothing else: what it leaves neither
  starts nor ends with white space.
\<close>

lemma trim_inner: "dropWhile isWhiteSpace s = trim s @ rev (takeWhile isWhiteSpace (rev (dropWhile isWhiteSpace s)))"
proof -
  let ?rest = "dropWhile isWhiteSpace s"
  have "rev ?rest = takeWhile isWhiteSpace (rev ?rest) @ dropWhile isWhiteSpace (rev ?rest)"
    by (rule takeWhile_dropWhile_id [symmetric])
  then have "rev (rev ?rest) =
      rev (takeWhile isWhiteSpace (rev ?rest) @ dropWhile isWhiteSpace (rev ?rest))"
    by (rule arg_cong)
  then show ?thesis
    by (simp only: rev_rev_ident rev_append trim_def)
qed

lemma trim_decomposition:
  "\<exists>pre suf. s = pre @ trim s @ suf \<and> (\<forall>c \<in> set pre. isWhiteSpace c) \<and> (\<forall>c \<in> set suf. isWhiteSpace c)"
proof (intro exI conjI)
  let ?rest = "dropWhile isWhiteSpace s"
  have "s = takeWhile isWhiteSpace s @ ?rest"
    by (rule takeWhile_dropWhile_id [symmetric])
  with trim_inner [of s]
  show "s = takeWhile isWhiteSpace s @ trim s @ rev (takeWhile isWhiteSpace (rev ?rest))"
    by (simp only:)
  show "\<forall>c \<in> set (takeWhile isWhiteSpace s). isWhiteSpace c"
    by (auto dest: set_takeWhileD)
  show "\<forall>c \<in> set (rev (takeWhile isWhiteSpace (rev ?rest))). isWhiteSpace c"
    by (auto dest: set_takeWhileD)
qed

lemma trim_ends:
  assumes "trim s \<noteq> []"
  shows "\<not> isWhiteSpace (hd (trim s))" and "\<not> isWhiteSpace (last (trim s))"
proof -
  let ?rest = "dropWhile isWhiteSpace s"
  from assms have ne: "dropWhile isWhiteSpace (rev ?rest) \<noteq> []"
    by (simp only: trim_def rev_is_Nil_conv not_False_eq_True)
  have "last (trim s) = hd (dropWhile isWhiteSpace (rev ?rest))"
    using ne by (simp only: trim_def last_rev)
  moreover have "\<not> isWhiteSpace (hd (dropWhile isWhiteSpace (rev ?rest)))"
    using ne by (rule hd_dropWhile)
  ultimately show "\<not> isWhiteSpace (last (trim s))" by simp
  have "?rest \<noteq> []"
  proof
    assume e: "?rest = []"
    have "trim s = rev (dropWhile isWhiteSpace (rev []))"
      by (simp only: trim_def e)
    then have "trim s = []" by simp
    with assms show False by contradiction
  qed
  then have "\<not> isWhiteSpace (hd ?rest)" by (rule hd_dropWhile)
  moreover have "hd ?rest = hd (trim s)"
    using trim_inner [of s] assms by (metis hd_append2)
  ultimately show "\<not> isWhiteSpace (hd (trim s))" by simp
qed

text \<open>The decimal text of a clock reading, and of a negative number.\<close>

lemma toString_example: "toString 1700000000000 = js ''1700000000000''"
  by (simp add: toString_def digits.simps js_def)

lemma toString_negative: "toString (- 42) = js ''-42''"
  by (simp add: toString_def digits.simps js_def)

lemma filter_removes_the_one:
  assumes "distinct (map f xs)" and "i \<in> set (map f xs)"
  shows "\<exists>pre x post. xs = pre @ x # post \<and> f x = i \<and> filter (\<lambda>y. f y \<noteq> i) xs = pre @ post"
proof -
  from assms(2) obtain x where "x \<in> set xs" and fx: "f x = i" by auto
  then obtain pre post where xs: "xs = pre @ x # post" by (auto simp: in_set_conv_decomp)
  from assms(1) xs fx have "\<forall>y \<in> set pre. f y \<noteq> i" and "\<forall>y \<in> set post. f y \<noteq> i"
    by (auto simp: image_iff)
  then have "filter (\<lambda>y. f y \<noteq> i) xs = pre @ post"
    using xs fx by simp
  with xs fx show ?thesis by blast
qed

lemma filter_absent:
  assumes "i \<notin> set (map f xs)"
  shows "filter (\<lambda>y. f y \<noteq> i) xs = xs"
  using assms by (induction xs) auto

lemma js_keys_differ: "js ''indonesianTranslation'' \<noteq> js ''wordType''"
  by (simp add: js_def)

lemma split_lf_nonempty: "split_lf s \<noteq> []"
  by (subst split_lf.simps) simp

text \<open>
  The pieces of \<open>split_lf\<close> are the newline-delimited lines of the text: none holds a
  line feed, and joined by line feeds they give the text back.
\<close>

lemma join_lf_Cons: "ls \<noteq> [] \<Longrightarrow> join_lf (l # ls) = l @ 0x000A # join_lf ls"
  by (cases ls) auto

lemma split_lf_last:
  assumes "dropWhile (\<lambda>c. c \<noteq> 0x000A) s = []"
  shows "split_lf s = [s]"
proof -
  have "takeWhile (\<lambda>c. c \<noteq> 0x000A) s @ dropWhile (\<lambda>c. c \<noteq> 0x000A) s = s"
    by (rule takeWhile_dropWhile_id)
  then have t: "takeWhile (\<lambda>c. c \<noteq> 0x000A) s = s"
    by (simp only: assms append_Nil2)
  show ?thesis
    by (subst split_lf.simps) (simp only: assms list.case t)
qed

lemma split_lf_more:
  assumes "dropWhile (\<lambda>c. c \<noteq> 0x000A) s = x # rest"
  shows "split_lf s = takeWhile (\<lambda>c. c \<noteq> 0x000A) s # split_lf rest"
    and "s = takeWhile (\<lambda>c. c \<noteq> 0x000A) s @ 0x000A # rest"
proof -
  show "split_lf s = takeWhile (\<lambda>c. c \<noteq> 0x000A) s # split_lf rest"
    by (subst split_lf.simps) (simp only: assms list.case)
  have "dropWhile (\<lambda>c. c \<noteq> 0x000A) s \<noteq> []"
    by (simp only: assms) simp
  then have "\<not> hd (dropWhile (\<lambda>c. c \<noteq> 0x000A) s) \<noteq> 0x000A"
    by (rule hd_dropWhile)
  then have x: "x = 0x000A"
    by (simp only: assms list.sel) simp
  have "s = takeWhile (\<lambda>c. c \<noteq> 0x000A) s @ dropWhile (\<lambda>c. c \<noteq> 0x000A) s"
    by (rule takeWhile_dropWhile_id [symmetric])
  then show "s = takeWhile (\<lambda>c. c \<noteq> 0x000A) s @ 0x000A # rest"
    by (simp only: assms x)
qed

lemma split_lf_join: "join_lf (split_lf s) = s"
proof (induction s rule: split_lf.induct)
  case (1 s)
  show ?case
  proof (cases "dropWhile (\<lambda>c. c \<noteq> 0x000A) s")
    case Nil
    then show ?thesis by (simp only: split_lf_last join_lf.simps)
  next
    case (Cons x rest)
    have ih: "join_lf (split_lf rest) = rest" using "1.IH" Cons by blast
    have "join_lf (split_lf s) =
          takeWhile (\<lambda>c. c \<noteq> 0x000A) s @ 0x000A # join_lf (split_lf rest)"
      by (simp only: split_lf_more(1) [OF Cons] join_lf_Cons [OF split_lf_nonempty])
    also have "\<dots> = s"
      using split_lf_more(2) [OF Cons] by (simp only: ih)
    finally show ?thesis .
  qed
qed

lemma split_lf_no_line_feed: "l \<in> set (split_lf s) \<Longrightarrow> 0x000A \<notin> set l"
proof (induction s rule: split_lf.induct)
  case (1 s)
  have tw: "0x000A \<notin> set (takeWhile (\<lambda>c. c \<noteq> 0x000A) s)"
    by (auto dest: set_takeWhileD)
  show ?case
  proof (cases "dropWhile (\<lambda>c. c \<noteq> 0x000A) s")
    case Nil
    have "takeWhile (\<lambda>c. c \<noteq> 0x000A) s @ dropWhile (\<lambda>c. c \<noteq> 0x000A) s = s"
      by (rule takeWhile_dropWhile_id)
    then have "takeWhile (\<lambda>c. c \<noteq> 0x000A) s = s"
      by (simp only: Nil append_Nil2)
    with "1.prems" tw show ?thesis
      by (simp only: split_lf_last [OF Nil]) simp
  next
    case (Cons x rest)
    from "1.prems" have "l = takeWhile (\<lambda>c. c \<noteq> 0x000A) s \<or> l \<in> set (split_lf rest)"
      by (simp only: split_lf_more(1) [OF Cons]) simp
    with tw "1.IH" Cons show ?thesis by blast
  qed
qed

section \<open>Letters without case, and decimal texts read back\<close>








text \<open>
  Reading back the decimal text of a number gives the number: different clock readings have
  different texts.
\<close>

lemma digitsValue_snoc: "digitsValue (ds @ [c]) = 10 * digitsValue ds + unat (c - 0x0030)"
  by (simp add: digitsValue_def)

lemma digitsValue_digits: "digitsValue (digits n) = n"
proof (induction n rule: digits.induct)
  case (1 n)
  show ?case
  proof (cases "n < 10")
    case True
    then have "digits n = [0x0030 + of_nat n]" by (simp add: digits.simps)
    with True show ?thesis by (simp add: digitsValue_def unat_of_nat)
  next
    case False
    then have d: "digits n = digits (n div 10) @ [0x0030 + of_nat (n mod 10)]"
      by (subst digits.simps) simp
    from False 1 have "digitsValue (digits (n div 10)) = n div 10" by simp
    then show ?thesis
      by (simp only: d digitsValue_snoc) (simp add: unat_of_nat)
  qed
qed

lemma digit_not_minus: "d < 10 \<Longrightarrow> (0x0030 :: code_unit) + of_nat d \<noteq> 0x002D"
proof
  assume d: "d < 10" and e: "(0x0030 :: code_unit) + of_nat d = 0x002D"
  from d have "unat ((0x0030 :: code_unit) + of_nat d) = 48 + d"
    by (simp add: unat_word_ariths unat_of_nat)
  moreover from e have "unat ((0x0030 :: code_unit) + of_nat d) = unat (0x002D :: code_unit)"
    by (rule arg_cong)
  ultimately have "48 + d = unat (0x002D :: code_unit)" by (simp only:)
  then show False by simp
qed

lemma digits_first: "\<exists>c cs. digits n = c # cs \<and> c \<noteq> 0x002D"
proof (induction n rule: digits.induct)
  case (1 n)
  show ?case
  proof (cases "n < 10")
    case True
    then have "digits n = [0x0030 + of_nat n]" by (simp add: digits.simps)
    with True digit_not_minus show ?thesis by simp
  next
    case False
    then have d: "digits n = digits (n div 10) @ [0x0030 + of_nat (n mod 10)]"
      by (subst digits.simps) simp
    from False 1 obtain c cs where "digits (n div 10) = c # cs" and "c \<noteq> 0x002D" by blast
    with d show ?thesis by simp
  qed
qed

lemma numberOf_toString: "numberOf (toString i) = i"
proof (cases "i < 0")
  case True
  then show ?thesis
    by (simp add: numberOf_def toString_def digitsValue_digits)
next
  case False
  obtain c cs where "digits (nat i) = c # cs" and "c \<noteq> 0x002D"
    using digits_first by blast
  moreover have "digitsValue (digits (nat i)) = nat i" by (rule digitsValue_digits)
  ultimately show ?thesis
    using False by (simp add: numberOf_def toString_def)
qed


section \<open>The parser always consumes input\<close>

text \<open>
  Every parser that succeeds leaves a text strictly shorter than the one it was given.
  Hence the length tests inside \<open>parse_elements\<close> and \<open>parse_members\<close> are true whenever
  they are reached, and the two functions satisfy the equations of a JSON parser written
  without them.
\<close>

lemma consFst_eq_Some: "consFst x r = Some (ys, rest) \<longleftrightarrow> (\<exists>xs. r = Some (xs, rest) \<and> ys = x # xs)"
  by (auto simp: consFst_def split: option.splits)

lemma parse_chars_shorter:
  "parse_chars cs = Some (s, r) \<Longrightarrow> length r < length cs"
proof (induction cs arbitrary: s rule: parse_chars.induct)
  case 1
  then show ?case by simp
next
  case (2 c cs)
  show ?case
  proof (cases "c = 0x0022")
    case True
    with "2.prems" show ?thesis by simp
  next
    case nq: False
    show ?thesis
    proof (cases "c = 0x005C")
      case False
      with nq "2.prems" obtain s' where "parse_chars cs = Some (s', r)"
        by (auto simp: consFst_eq_Some split: if_splits)
      with "2.IH"(3) nq False "2.prems" have "length r < length cs"
        by (auto split: if_splits)
      then show ?thesis by simp
    next
      case bs: True
      show ?thesis
      proof (cases cs)
        case Nil
        with nq bs "2.prems" show ?thesis by simp
      next
        case (Cons e es)
        show ?thesis
        proof (cases "e = 0x0075")
          case False
          with nq bs Cons "2.prems" obtain u s' where "unescape e = Some u" "parse_chars es = Some (s', r)"
            by (auto simp: consFst_eq_Some split: option.splits)
          with "2.IH"(2) nq bs Cons False have "length r < length es"
            by blast
          with Cons show ?thesis by simp
        next
          case True
          with nq bs Cons "2.prems" obtain h3 h2 h1 h0 r' u s' where
            es: "es = h3 # h2 # h1 # h0 # r'" and "hex4 h3 h2 h1 h0 = Some u"
            and "parse_chars r' = Some (s', r)"
            by (auto simp: consFst_eq_Some split: list.splits option.splits)
          with "2.IH"(1) nq bs Cons True have "length r < length r'"
            by blast
          with Cons es show ?thesis by simp
        qed
      qed
    qed
  qed
qed

lemma dropWhile_le: "length (dropWhile P xs) \<le> length xs"
  by (rule length_dropWhile_le)

lemma parse_int_part_shorter: "parse_int_part cs = Some (ip, r) \<Longrightarrow> length r < length cs"
  using dropWhile_le [of isDigit "tl cs"]
  by (auto simp: parse_int_part_def le_imp_less_Suc split: list.splits if_splits)

lemma parse_frac_part_shorter: "parse_frac_part cs = Some (fp, r) \<Longrightarrow> length r \<le> length cs"
  using dropWhile_le [of isDigit "tl (tl cs)"]
  by (auto simp: parse_frac_part_def split: list.splits if_splits)

lemma parse_exp_digits_shorter: "parse_exp_digits pre cs = Some (ep, r) \<Longrightarrow> length r \<le> length cs"
  using dropWhile_le [of isDigit "tl cs"]
  by (auto simp: parse_exp_digits_def split: list.splits if_splits)

lemma parse_exp_part_shorter: "parse_exp_part cs = Some (ep, r) \<Longrightarrow> length r \<le> length cs"
  by (auto simp: parse_exp_part_def split: list.splits if_splits
      dest!: parse_exp_digits_shorter)

lemma parse_number_shorter:
  assumes "parse_number cs = Some (lit, r)"
  shows "length r < length cs"
proof -
  define r0 where "r0 = (case cs of c # r \<Rightarrow> if c = 0x002D then r else cs | [] \<Rightarrow> cs)"
  have r0: "length r0 \<le> length cs"
    by (auto simp: r0_def split: list.splits)
  from assms obtain ip r1 fp r2 ep where
    "parse_int_part r0 = Some (ip, r1)" "parse_frac_part r1 = Some (fp, r2)"
    "parse_exp_part r2 = Some (ep, r)"
    by (auto simp: parse_number_def r0_def Let_def split: list.splits if_splits option.splits)
  then have "length r1 < length r0" "length r2 \<le> length r1" "length r \<le> length r2"
    by (auto dest: parse_int_part_shorter parse_frac_part_shorter parse_exp_part_shorter)
  with r0 show ?thesis by simp
qed

lemma skip_ws_le: "length (skip_ws cs) \<le> length cs"
  unfolding skip_ws_def by (rule length_dropWhile_le)

lemma skip_ws_Cons_shorter: "skip_ws r = d # r1 \<Longrightarrow> length r1 < length r"
  using skip_ws_le [of r] by simp

lemma parse_value_step:
  assumes elems: "\<And>cs' vs r'. length cs' < length (c # r) \<Longrightarrow>
                    parse_elements cs' = Some (vs, r') \<Longrightarrow> length r' < length cs'"
    and membs: "\<And>cs' ms r'. length cs' < length (c # r) \<Longrightarrow>
                    parse_members cs' = Some (ms, r') \<Longrightarrow> length r' < length cs'"
    and pv: "parse_value (c # r) = Some (v, rest)"
  shows "length rest < length (c # r)"
proof -
  consider (str) "c = 0x0022" | (arr) "c \<noteq> 0x0022" "c = 0x005B"
    | (obj) "c \<noteq> 0x0022" "c \<noteq> 0x005B" "c = 0x007B"
    | (other) "c \<noteq> 0x0022" "c \<noteq> 0x005B" "c \<noteq> 0x007B"
    by blast
  then show ?thesis
  proof cases
    case str
    with pv obtain s where "parse_chars r = Some (s, rest)"
      by (auto split: option.splits)
    then have "length rest < length r" by (rule parse_chars_shorter)
    then show ?thesis by simp
  next
    case arr
    with pv obtain d r1 where sk: "skip_ws r = d # r1"
      by (cases "skip_ws r") auto
    then have l: "length r1 < length r" by (rule skip_ws_Cons_shorter)
    show ?thesis
    proof (cases "d = 0x005D")
      case True
      with pv arr sk l show ?thesis by simp
    next
      case False
      with pv arr sk obtain vs where pe: "parse_elements (d # r1) = Some (vs, rest)"
        by (auto split: option.splits)
      have "length (d # r1) < length (c # r)" using l by simp
      from elems [OF this pe] l show ?thesis by simp
    qed
  next
    case obj
    with pv obtain d r1 where sk: "skip_ws r = d # r1"
      by (cases "skip_ws r") auto
    then have l: "length r1 < length r" by (rule skip_ws_Cons_shorter)
    show ?thesis
    proof (cases "d = 0x007D")
      case True
      with pv obj sk l show ?thesis by simp
    next
      case False
      with pv obj sk obtain ms where pm: "parse_members (d # r1) = Some (ms, rest)"
        by (auto split: option.splits)
      have "length (d # r1) < length (c # r)" using l by simp
      from membs [OF this pm] l show ?thesis by simp
    qed
  next
    case other
    with pv show ?thesis
      by (auto split: if_splits option.splits dest: parse_number_shorter)
  qed
qed

lemma parsers_consume:
  "(\<forall>v r. parse_value cs = Some (v, r) \<longrightarrow> length r < length cs) \<and>
   (\<forall>vs r. parse_elements cs = Some (vs, r) \<longrightarrow> length r < length cs) \<and>
   (\<forall>ms r. parse_members cs = Some (ms, r) \<longrightarrow> length r < length cs)"
proof (induction cs rule: length_induct)
  case (1 cs)
  have pvs: "length r < length cs" if "parse_value cs = Some (v, r)" for v r
  proof (cases cs)
    case Nil
    with that show ?thesis by simp
  next
    case (Cons c t)
    show ?thesis
      unfolding Cons
    proof (rule parse_value_step)
      show "parse_value (c # t) = Some (v, r)" using that Cons by simp
    qed (use 1 Cons in blast)+
  qed
  have pes: "length r < length cs" if pe: "parse_elements cs = Some (vs, r)" for vs r
  proof -
    from pe obtain v r0 where pv: "parse_value cs = Some (v, r0)"
      by (subst (asm) parse_elements.simps) (auto split: option.splits)
    then have l0: "length r0 < length cs" by (rule pvs)
    from pe pv obtain d r1 where sk: "skip_ws r0 = d # r1"
      by (subst (asm) parse_elements.simps) (auto split: list.splits)
    then have l1: "length r1 < length r0" by (rule skip_ws_Cons_shorter)
    show ?thesis
    proof (cases "d = 0x005D")
      case True
      with pe pv sk have "r = r1"
        by (subst (asm) parse_elements.simps) simp
      with l0 l1 show ?thesis by simp
    next
      case False
      with pe pv sk obtain vs' where "parse_elements (skip_ws r1) = Some (vs', r)"
        by (subst (asm) parse_elements.simps) (auto simp: consFst_eq_Some split: if_splits)
      moreover have "length (skip_ws r1) < length cs"
        using skip_ws_le [of r1] l0 l1 by simp
      ultimately have "length r < length (skip_ws r1)" using 1 by blast
      with skip_ws_le [of r1] l0 l1 show ?thesis by simp
    qed
  qed
  have pms: "length r < length cs" if pm: "parse_members cs = Some (ms, r)" for ms r
  proof -
    from pm obtain t where cs: "cs = 0x0022 # t"
      by (subst (asm) parse_members.simps) (auto split: list.splits if_splits)
    from pm cs obtain k r0 where pc: "parse_chars t = Some (k, r0)"
      by (subst (asm) parse_members.simps) (auto split: option.splits)
    then have l0: "length r0 < length t" by (rule parse_chars_shorter)
    from pm cs pc obtain r1 where sk: "skip_ws r0 = 0x003A # r1"
      by (subst (asm) parse_members.simps) (auto split: list.splits if_splits)
    then have l1: "length r1 < length r0" by (rule skip_ws_Cons_shorter)
    from pm cs pc sk obtain v r2 where pv: "parse_value (skip_ws r1) = Some (v, r2)"
      by (subst (asm) parse_members.simps) (auto split: option.splits if_splits)
    have "length (skip_ws r1) < length cs"
      using skip_ws_le [of r1] l0 l1 cs by simp
    with pv 1 have l2: "length r2 < length (skip_ws r1)" by blast
    from pm cs pc sk pv obtain d r3 where sk2: "skip_ws r2 = d # r3"
      by (subst (asm) parse_members.simps) (auto split: list.splits if_splits)
    then have l3: "length r3 < length r2" by (rule skip_ws_Cons_shorter)
    show ?thesis
    proof (cases "d = 0x007D")
      case True
      with pm cs pc sk pv sk2 have "r = r3"
        by (subst (asm) parse_members.simps) (simp split: if_splits)
      with skip_ws_le [of r1] l0 l1 l2 l3 cs show ?thesis by simp
    next
      case False
      with pm cs pc sk pv sk2 obtain ms' where "parse_members (skip_ws r3) = Some (ms', r)"
        by (subst (asm) parse_members.simps) (auto simp: consFst_eq_Some split: if_splits)
      moreover have "length (skip_ws r3) < length cs"
        using skip_ws_le [of r1] skip_ws_le [of r3] l0 l1 l2 l3 cs by simp
      ultimately have "length r < length (skip_ws r3)" using 1 by blast
      with skip_ws_le [of r1] skip_ws_le [of r3] l0 l1 l2 l3 cs show ?thesis by simp
    qed
  qed
  from pvs pes pms show ?case by blast
qed

lemma parse_elements_unguarded:
  "parse_elements cs =
     (case parse_value cs of
        None \<Rightarrow> None
      | Some (v, r) \<Rightarrow>
          (case skip_ws r of
             [] \<Rightarrow> None
           | d # r1 \<Rightarrow>
               if d = 0x005D then Some ([v], r1)
               else if d = 0x002C then consFst v (parse_elements (skip_ws r1))
               else None))"
proof (cases "parse_value cs")
  case None
  then show ?thesis by (subst parse_elements.simps) simp
next
  case (Some p)
  obtain v r where p: "p = (v, r)" by (cases p)
  with Some parsers_consume [of cs] have l: "length r < length cs" by blast
  show ?thesis
  proof (cases "skip_ws r")
    case Nil
    with Some p show ?thesis by (subst parse_elements.simps) simp
  next
    case (Cons d r1)
    then have "length r1 < length r" by (rule skip_ws_Cons_shorter)
    with l have "length r1 < length cs" by simp
    with Some p Cons show ?thesis by (subst parse_elements.simps) simp
  qed
qed

lemma parse_members_unguarded:
  "parse_members cs =
     (case cs of
        [] \<Rightarrow> None
      | q # r \<Rightarrow>
          if q = 0x0022 then
            (case parse_chars r of
               None \<Rightarrow> None
             | Some (k, r0) \<Rightarrow>
                 (case skip_ws r0 of
                    [] \<Rightarrow> None
                  | col # r1 \<Rightarrow>
                      if col = 0x003A then
                        (case parse_value (skip_ws r1) of
                           None \<Rightarrow> None
                         | Some (v, r2) \<Rightarrow>
                             (case skip_ws r2 of
                                [] \<Rightarrow> None
                              | d # r3 \<Rightarrow>
                                  if d = 0x007D then Some ([(k, v)], r3)
                                  else if d = 0x002C then
                                    consFst (k, v) (parse_members (skip_ws r3))
                                  else None))
                      else None))
          else None)"
proof (cases cs)
  case Nil
  then show ?thesis by (subst parse_members.simps) simp
next
  case (Cons q r)
  show ?thesis
  proof (cases "parse_chars r")
    case None
    with Cons show ?thesis by (subst parse_members.simps) simp
  next
    case (Some p)
    obtain k r0 where p: "p = (k, r0)" by (cases p)
    with Some have l0: "length r0 < length r" by (auto dest: parse_chars_shorter)
    show ?thesis
    proof (cases "skip_ws r0")
      case Nil
      with Cons Some p show ?thesis by (subst parse_members.simps) simp
    next
      case c1: (Cons col r1)
      then have l1: "length r1 < length r0" by (rule skip_ws_Cons_shorter)
      with l0 Cons have g1: "length r1 < length cs" by simp
      show ?thesis
      proof (cases "parse_value (skip_ws r1)")
        case None
        with Cons Some p c1 g1 show ?thesis by (subst parse_members.simps) simp
      next
        case v: (Some pv)
        obtain v' r2 where pv: "pv = (v', r2)" by (cases pv)
        with v parsers_consume [of "skip_ws r1"] have l2: "length r2 < length (skip_ws r1)"
          by blast
        show ?thesis
        proof (cases "skip_ws r2")
          case Nil
          with Cons Some p c1 g1 v pv show ?thesis by (subst parse_members.simps) simp
        next
          case c3: (Cons d r3)
          then have "length r3 < length r2" by (rule skip_ws_Cons_shorter)
          with l2 skip_ws_le [of r1] g1 have g3: "length r3 < length cs" by simp
          with Cons Some p c1 g1 v pv c3 show ?thesis by (subst parse_members.simps) simp
        qed
      qed
    qed
  qed
qed

section \<open>\<open>JSON.parse\<close> reads back what \<open>JSON.stringify\<close> wrote\<close>

lemma hexValue_hexDigit:
  fixes n :: code_unit
  assumes "n < 16"
  shows "hexValue (hexDigit n) = Some n"
  using assms unfolding hexValue_def hexDigit_def
  by (auto simp: word_less_nat_alt word_le_nat_alt unat_word_ariths)

lemma and_15_take_bit: "x AND 0x000F = take_bit 4 x" for x :: code_unit
  by (simp add: take_bit_eq_mask mask_eq_exp_minus_1)

lemma nibble_bounds:
  fixes c :: code_unit
  shows "drop_bit 12 c < 16" "drop_bit 8 c AND 0x000F < 16" "drop_bit 4 c AND 0x000F < 16"
    "c AND 0x000F < 16"
proof -
  have m: "x AND 0x000F < 16" for x :: code_unit
    using word_and_le1 [of x 15] by (simp add: word_less_nat_alt word_le_nat_alt)
  show "drop_bit 8 c AND 0x000F < 16" "drop_bit 4 c AND 0x000F < 16" "c AND 0x000F < 16"
    by (rule m)+
  have "unat (drop_bit 12 c) = unat c div 2 ^ 12"
    by (simp add: unat_drop_bit_eq drop_bit_eq_div unat_div)
  moreover have "unat c < 2 ^ 16" using unsigned_less [of c] by simp
  ultimately show "drop_bit 12 c < 16"
    by (simp add: word_less_nat_alt) 
qed

lemma nibbles_recombine:
  fixes c :: code_unit
  shows "push_bit 12 (drop_bit 12 c) OR push_bit 8 (drop_bit 8 c AND 0x000F) OR
         push_bit 4 (drop_bit 4 c AND 0x000F) OR (c AND 0x000F) = c"
  unfolding and_15_take_bit
proof (rule bit_word_eqI)
  fix n :: nat
  assume "n < LENGTH(16)"
  then consider "n < 4" | "4 \<le> n" "n < 8" | "8 \<le> n" "n < 12" | "12 \<le> n" "n < 16"
    by fastforce
  then show "bit (push_bit 12 (drop_bit 12 c) OR push_bit 8 (take_bit 4 (drop_bit 8 c)) OR
         push_bit 4 (take_bit 4 (drop_bit 4 c)) OR take_bit 4 c) n = bit c n"
    by cases (auto simp: bit_simps)
qed

lemma hex4_unicodeEscape:
  "hex4 (hexDigit (drop_bit 12 c)) (hexDigit (drop_bit 8 c AND 0x000F))
        (hexDigit (drop_bit 4 c AND 0x000F)) (hexDigit (c AND 0x000F)) = Some c"
  by (simp only: hex4_def hexValue_hexDigit nibble_bounds nibbles_recombine prod.case option.case)

lemma consFst_Some [simp]: "consFst x (Some (xs, r)) = Some (x # xs, r)"
  by (simp add: consFst_def)

lemma parse_chars_quoteUnit:
  "parse_chars (quoteUnit c @ rest) = consFst c (parse_chars rest)"
proof -
  consider (short) "c = 0x0008 \<or> c = 0x0009 \<or> c = 0x000A \<or> c = 0x000C \<or> c = 0x000D \<or>
                     c = 0x0022 \<or> c = 0x005C"
    | (uni) "\<not> (c = 0x0008 \<or> c = 0x0009 \<or> c = 0x000A \<or> c = 0x000C \<or> c = 0x000D \<or>
                     c = 0x0022 \<or> c = 0x005C)"
            "c < 0x0020 \<or> isLeadingSurrogate c \<or> isTrailingSurrogate c"
    | (plain) "\<not> (c = 0x0008 \<or> c = 0x0009 \<or> c = 0x000A \<or> c = 0x000C \<or> c = 0x000D \<or>
                     c = 0x0022 \<or> c = 0x005C)"
            "\<not> (c < 0x0020 \<or> isLeadingSurrogate c \<or> isTrailingSurrogate c)"
    by blast
  then show ?thesis
  proof cases
    case short
    then show ?thesis
      by (auto simp: quoteUnit_def unescape_def)
  next
    case uni
    then show ?thesis
      by (simp add: quoteUnit_def unicodeEscape_def hex4_unicodeEscape)
  next
    case plain
    then show ?thesis
      by (simp add: quoteUnit_def)
  qed
qed

lemma surrogate_plain:
  assumes "isLeadingSurrogate c \<or> isTrailingSurrogate c"
  shows "c \<noteq> 0x0022" "c \<noteq> 0x005C" "\<not> c < 0x0020"
  using assms
  by (auto simp: isLeadingSurrogate_def isTrailingSurrogate_def word_less_nat_alt word_le_nat_alt)

lemma parse_chars_quoteBody:
  "parse_chars (quoteBody s @ 0x0022 # r) = Some (s, r)"
proof (induction s rule: quoteBody.induct)
  case 1
  show ?case by simp
next
  case (2 c)
  show ?case by (simp add: parse_chars_quoteUnit)
next
  case (3 c d s)
  show ?case
  proof (cases "isLeadingSurrogate c \<and> isTrailingSurrogate d")
    case True
    then show ?thesis
      using 3 surrogate_plain [of c] surrogate_plain [of d] by simp
  next
    case False
    then have qb: "quoteBody (c # d # s) = quoteUnit c @ quoteBody (d # s)"
      by auto
    have "parse_chars (quoteBody (d # s) @ 0x0022 # r) = Some (d # s, r)"
      using 3(2) False by blast
    then show ?thesis
      unfolding qb by (simp only: append_assoc parse_chars_quoteUnit consFst_Some)
  qed
qed

lemma parse_value_string:
  "parse_value (quoteJSONString s @ r) = Some (JStr s, r)"
  by (simp add: quoteJSONString_def parse_chars_quoteBody)

lemma commaSep_Cons: "xs \<noteq> [] \<Longrightarrow> commaSep (x # xs) = x @ 0x002C # commaSep xs"
  by (cases xs) auto

lemma skip_ws_start: "\<not> isJSONWhiteSpace c \<Longrightarrow> skip_ws (c # t) = c # t"
  by (simp add: skip_ws_def)

lemma skip_ws_starts_plain: "starts_plain t \<Longrightarrow> skip_ws (t @ r) = t @ r"
  by (auto simp: starts_plain_def skip_ws_def)

lemma parse_elements_round_trip:
  assumes "vs \<noteq> []"
    and "\<forall>v \<in> set vs. (\<forall>r. parse_value (JSON_stringify v @ r) = Some (v, r))
                        \<and> starts_plain (JSON_stringify v)"
  shows "parse_elements (commaSep (map JSON_stringify vs) @ 0x005D # r) = Some (vs, r)"
  using assms
proof (induction vs rule: list_nonempty_induct)
  case (single v)
  then have pv: "parse_value (JSON_stringify v @ 0x005D # r) = Some (v, 0x005D # r)"
    by simp
  show ?case
    by (subst parse_elements.simps) (simp add: pv skip_ws_def isJSONWhiteSpace_def)
next
  case (cons v vs)
  let ?rest = "commaSep (map JSON_stringify vs) @ 0x005D # r"
  have cs: "commaSep (map JSON_stringify (v # vs)) @ 0x005D # r =
            JSON_stringify v @ 0x002C # ?rest"
    using cons.hyps(1) by (simp add: commaSep_Cons)
  have pv: "parse_value (JSON_stringify v @ 0x002C # ?rest) = Some (v, 0x002C # ?rest)"
    using cons.prems by simp
  obtain w ws where vs: "vs = w # ws" using cons.hyps(1) by (cases vs) auto
  have "starts_plain (JSON_stringify w)" using cons.prems vs by simp
  then have sk: "skip_ws ?rest = ?rest"
    by (cases ws) (simp_all add: vs skip_ws_starts_plain)
  have ih: "parse_elements ?rest = Some (vs, r)"
    using cons.IH cons.prems by simp
  show ?case
    unfolding cs
    by (subst parse_elements.simps) (simp add: pv skip_ws_def isJSONWhiteSpace_def sk [unfolded skip_ws_def] ih)
qed

lemma parse_members_round_trip:
  assumes "ms \<noteq> []"
    and "\<forall>m \<in> set ms. (\<forall>r. parse_value (JSON_stringify (snd m) @ r) = Some (snd m, r))
                        \<and> starts_plain (JSON_stringify (snd m))"
  shows "parse_members (commaSep (map member_text ms) @ 0x007D # r) = Some (ms, r)"
  using assms
proof (induction ms rule: list_nonempty_induct)
  case (single m)
  obtain k v where m: "m = (k, v)" by (cases m)
  have pv: "parse_value (JSON_stringify v @ 0x007D # r) = Some (v, 0x007D # r)"
    using single m by simp
  have sk: "skip_ws (JSON_stringify v @ 0x007D # r) = JSON_stringify v @ 0x007D # r"
    using single m by (simp add: skip_ws_starts_plain)
  show ?case
    by (subst parse_members.simps)
      (simp add: m member_text_def quoteJSONString_def parse_chars_quoteBody
        skip_ws_start isJSONWhiteSpace_def sk pv)
next
  case (cons m ms)
  obtain k v where m: "m = (k, v)" by (cases m)
  let ?rest = "commaSep (map member_text ms) @ 0x007D # r"
  have cs: "commaSep (map member_text (m # ms)) @ 0x007D # r =
            member_text m @ 0x002C # ?rest"
    using cons.hyps(1) by (simp add: commaSep_Cons)
  have pv: "parse_value (JSON_stringify v @ 0x002C # ?rest) = Some (v, 0x002C # ?rest)"
    using cons.prems m by simp
  have sk: "skip_ws (JSON_stringify v @ 0x002C # ?rest) = JSON_stringify v @ 0x002C # ?rest"
    using cons.prems m by (simp add: skip_ws_starts_plain)
  obtain w ws where ms: "ms = w # ws" using cons.hyps(1) by (cases ms) auto
  have "\<exists>t. ?rest = 0x0022 # t"
    by (cases ws; cases w) (simp_all add: ms member_text_def quoteJSONString_def)
  then have sk2: "skip_ws ?rest = ?rest"
    by (auto simp: skip_ws_start isJSONWhiteSpace_def)
  have ih: "parse_members ?rest = Some (ms, r)"
    using cons.IH cons.prems by simp
  show ?case
    unfolding cs
    by (subst parse_members.simps)
      (simp add: m member_text_def quoteJSONString_def parse_chars_quoteBody
        skip_ws_start isJSONWhiteSpace_def sk pv sk2 ih)
qed

lemma member_text_fun: "(\<lambda>(k, v). quoteJSONString k @ 0x003A # JSON_stringify v) = member_text"
  by (simp add: fun_eq_iff member_text_def)

lemma parse_value_object:
  assumes "ms \<noteq> []"
    and "\<forall>m \<in> set ms. (\<forall>r. parse_value (JSON_stringify (snd m) @ r) = Some (snd m, r))
                        \<and> starts_plain (JSON_stringify (snd m))"
  shows "parse_value (JSON_stringify (JObj ms) @ r) = Some (JObj ms, r)"
proof -
  let ?body = "commaSep (map member_text ms) @ 0x007D # r"
  obtain w ws where ms: "ms = w # ws" using assms(1) by (cases ms) auto
  have "\<exists>t. ?body = 0x0022 # t"
    by (cases ws; cases w) (simp_all add: ms member_text_def quoteJSONString_def)
  then obtain t where body: "?body = 0x0022 # t" by blast
  have pm: "parse_members (0x0022 # t) = Some (ms, r)"
    using parse_members_round_trip [OF assms, of r] body by simp
  have "JSON_stringify (JObj ms) @ r = 0x007B # ?body"
    by (simp add: member_text_fun)
  then show ?thesis
    using body pm by (simp add: skip_ws_start isJSONWhiteSpace_def)
qed

lemma parse_value_array:
  assumes "\<forall>v \<in> set vs. (\<forall>r. parse_value (JSON_stringify v @ r) = Some (v, r))
                        \<and> starts_plain (JSON_stringify v)"
  shows "parse_value (JSON_stringify (JArr vs) @ r) = Some (JArr vs, r)"
proof (cases vs)
  case Nil
  then show ?thesis by (simp add: skip_ws_start isJSONWhiteSpace_def)
next
  case (Cons w ws)
  let ?body = "commaSep (map JSON_stringify vs) @ 0x005D # r"
  have "starts_plain (JSON_stringify w)" using assms Cons by simp
  then obtain c u where w: "JSON_stringify w = c # u" and c: "\<not> isJSONWhiteSpace c" "c \<noteq> 0x005D"
    by (auto simp: starts_plain_def)
  have "\<exists>t. ?body = c # t"
    by (cases ws) (simp_all add: Cons w)
  then obtain t where body: "?body = c # t" by blast
  have "vs \<noteq> []" using Cons by simp
  then have pe: "parse_elements (c # t) = Some (vs, r)"
    using parse_elements_round_trip [OF _ assms, of r] body by simp
  have "JSON_stringify (JArr vs) @ r = 0x005B # ?body"
    by simp
  then show ?thesis
    using body pe c by (simp add: skip_ws_start)
qed

lemma string_value_round_trip:
  "(\<forall>r. parse_value (JSON_stringify (JStr s) @ r) = Some (JStr s, r))
   \<and> starts_plain (JSON_stringify (JStr s))"
proof
  show "\<forall>r. parse_value (JSON_stringify (JStr s) @ r) = Some (JStr s, r)"
    by (simp add: parse_value_string)
  show "starts_plain (JSON_stringify (JStr s))"
    by (simp add: starts_plain_def quoteJSONString_def isJSONWhiteSpace_def)
qed

lemma word_json_round_trip:
  "(\<forall>r. parse_value (JSON_stringify (word_json w) @ r) = Some (word_json w, r))
   \<and> starts_plain (JSON_stringify (word_json w))"
proof -
  have "parse_value (JSON_stringify (word_json w) @ r) = Some (word_json w, r)" for r
    unfolding word_json_def
    by (rule parse_value_object) (simp_all add: string_value_round_trip del: JSON_stringify.simps)
  moreover have "starts_plain (JSON_stringify (word_json w))"
    by (simp add: word_json_def starts_plain_def isJSONWhiteSpace_def)
  ultimately show ?thesis by blast
qed

lemma sentence_json_round_trip:
  "(\<forall>r. parse_value (JSON_stringify (sentence_json x) @ r) = Some (sentence_json x, r))
   \<and> starts_plain (JSON_stringify (sentence_json x))"
proof -
  have "parse_value (JSON_stringify (sentence_json x) @ r) = Some (sentence_json x, r)" for r
    unfolding sentence_json_def
    by (rule parse_value_object) (simp_all add: string_value_round_trip del: JSON_stringify.simps)
  moreover have "starts_plain (JSON_stringify (sentence_json x))"
    by (simp add: sentence_json_def starts_plain_def isJSONWhiteSpace_def)
  ultimately show ?thesis by blast
qed

lemma JSON_parse_stringify_array:
  assumes "\<forall>v \<in> set vs. (\<forall>r. parse_value (JSON_stringify v @ r) = Some (v, r))
                        \<and> starts_plain (JSON_stringify v)"
  shows "JSON_parse (JSON_stringify (JArr vs)) = Some (JArr vs)"
proof -
  have "parse_value (JSON_stringify (JArr vs) @ []) = Some (JArr vs, [])"
    using assms by (rule parse_value_array)
  moreover have "skip_ws (JSON_stringify (JArr vs)) = JSON_stringify (JArr vs)"
    by (simp add: skip_ws_start isJSONWhiteSpace_def)
  ultimately show ?thesis
    by (simp add: JSON_parse_def skip_ws_def del: JSON_stringify.simps)
qed

lemma those_map_Some: "(\<And>x. x \<in> set xs \<Longrightarrow> f (g x) = Some x) \<Longrightarrow> those (map f (map g xs)) = Some xs"
  by (induction xs) auto

lemma word_of_json_word_json: "word_of_json (word_json w) = Some w"
  by (simp add: word_of_json_def word_json_def property_def get_prop_def js_def)

lemma sentence_of_json_sentence_json: "sentence_of_json (sentence_json x) = Some x"
  by (simp add: sentence_of_json_def sentence_json_def property_def get_prop_def js_def)

text \<open>The text stored for a collection of one sentence.\<close>

lemma stringify_example:
  "JSON_stringify (JArr (map sentence_json [sentence_pagi])) =
     js ''[{\"id\":\"1700000000003\",\"myanmar\":\"'' @
     [0x1019, 0x1004, 0x103A, 0x1039, 0x1002, 0x101C, 0x102C, 0x1015, 0x102B] @
     js ''\",\"indonesian\":\"Selamat pagi\"}]''"
  by code_simp

lemma load_words_after_save:
  assumes "sto (js ''words'') = Some (JSON_stringify (JArr (map word_json ws)))"
  shows "load_words sto = Loaded ws"
proof -
  have p: "JSON_parse (JSON_stringify (JArr (map word_json ws))) = Some (JArr (map word_json ws))"
    by (rule JSON_parse_stringify_array) (simp add: word_json_round_trip)
  have t: "those (map word_of_json (map word_json ws)) = Some ws"
    by (rule those_map_Some) (rule word_of_json_word_json)
  have n: "JSON_stringify (JArr (map word_json ws)) \<noteq> []" by simp
  show ?thesis
    unfolding load_words_def load_key_def
    by (simp only: assms option.case n if_False p json.case t)
qed

lemma load_sentences_after_save:
  assumes "sto (js ''sentences'') = Some (JSON_stringify (JArr (map sentence_json xs)))"
  shows "load_sentences sto = Loaded xs"
proof -
  have p: "JSON_parse (JSON_stringify (JArr (map sentence_json xs))) = Some (JArr (map sentence_json xs))"
    by (rule JSON_parse_stringify_array) (simp add: sentence_json_round_trip)
  have t: "those (map sentence_of_json (map sentence_json xs)) = Some xs"
    by (rule those_map_Some) (rule sentence_of_json_sentence_json)
  have n: "JSON_stringify (JArr (map sentence_json xs)) \<noteq> []" by simp
  show ?thesis
    unfolding load_sentences_def load_key_def
    by (simp only: assms option.case n if_False p json.case t)
qed

lemma storage_keys_differ: "js ''words'' \<noteq> js ''sentences''"
  by (simp add: js_def)

section \<open>Handlers: the calls they can make\<close>




lemma parse_undefined: "JSON_parse (js ''undefined'') = None"
  by code_simp

lemma translateFailure_try:
  assumes "translateFailure env st = Some err"
  shows "\<exists>g. trim (newMyanmarWord st) \<noteq> [] \<and> ai env = Some g \<and>
          saveWord_try env st (g (translateRequest (newMyanmarWord st))) = Some (Inl err)"
proof -
  from assms have nb: "trim (newMyanmarWord st) \<noteq> []"
    by (auto simp: translateFailure_def split: if_splits)
  from assms nb obtain g where g: "ai env = Some g"
    by (cases "ai env") (auto simp: translateFailure_def)
  have "saveWord_try env st (g (translateRequest (newMyanmarWord st))) = Some (Inl err)"
  proof (cases "g (translateRequest (newMyanmarWord st))")
    case (Inl e)
    with assms nb g show ?thesis by (simp add: translateFailure_def saveWord_try_def)
  next
    case (Inr rt)
    show ?thesis
    proof (cases rt)
      case None
      with assms nb g Inr show ?thesis
        by (simp add: translateFailure_def saveWord_try_def parse_undefined)
    next
      case (Some t)
      with assms nb g Inr show ?thesis
        by (simp add: translateFailure_def saveWord_try_def split: if_splits)
    qed
  qed
  with nb g show ?thesis by blast
qed

lemma makan_parse:
  "JSON_parse makan_text =
     Some (JObj [(js ''indonesianTranslation'', JStr (js ''makan'')),
                 (js ''wordType'', JStr (js ''Verb''))])"
  by code_simp

lemma makan_swapped_parse:
  "JSON_parse makan_text_swapped =
     Some (JObj [(js ''wordType'', JStr (js ''Verb'')),
                 (js ''indonesianTranslation'', JStr (js ''makan''))])"
  by code_simp

lemma stored_ids:
  "w_id word_minum = toString 1700000000002" "w_id word_air = toString 1700000000001"
  by (simp_all add: word_minum_def word_air_def toString_def digits.simps js_def)


lemma pagi_lines:
  "trim (line pagi_text 0) = [0x1019, 0x1004, 0x103A, 0x1039, 0x1002, 0x101C, 0x102C, 0x1015, 0x102B]"
  "trim (line pagi_text 1) = js ''Selamat pagi''"
  by code_simp+

lemma example_input_not_blank: "trim [0x1005, 0x102C, 0x1038] \<noteq> []"
  by (simp add: trim_def isWhiteSpace_def)

text \<open>The word of the example, saved into an empty application and saved again.\<close>

lemma first_save:
  "handleSaveWord example_platform typed_state =
     Some [SetLoading True, SetError JSNull,
           GenerateContent (translateRequest [0x1005, 0x102C, 0x1038]),
           SetWords [makan_word], SetNewMyanmarWord [], SetLoading False]"
  using makan_parse example_input_not_blank
  by (simp add: handleSaveWord_def saveWord_try_def property_def get_prop_def js_keys_differ
      typed_state_def handleInputChange_def empty_state_def example_platform_def
      no_key_platform_def example_client_def translateRequest_def makan_word_def)

lemma second_save:
  "handleSaveWord example_platform
         (run (handleInputChange [0x1005, 0x102C, 0x1038]) once_saved_state) =
       Some [SetLoading True, SetError JSNull,
             GenerateContent (translateRequest [0x1005, 0x102C, 0x1038]),
             SetWords [makan_word, makan_word], SetNewMyanmarWord [], SetLoading False]"
  using makan_parse example_input_not_blank
  by (simp add: handleSaveWord_def saveWord_try_def property_def get_prop_def js_keys_differ
      once_saved_state_def handleInputChange_def empty_state_def example_platform_def
      no_key_platform_def example_client_def translateRequest_def makan_word_def)

lemma crlf_lines:
  "split_lf crlf_text = [js ''Apa kabar?'' @ [0x000D], js ''Apa kabar?'']"
  "map trim (split_lf crlf_text) = [js ''Apa kabar?'', js ''Apa kabar?'']"
  by code_simp+

section \<open>Searching the word bank\<close>

text \<open>An upper-case term finds the word whose Indonesian field is \<open>air\<close>.\<close>

lemma search_example:
  "filteredWords example_platform (run (handleSearchChange (js ''AIR'')) two_word_state) = [word_air]"
  by (simp add: filteredWords_def handleSearchChange_def two_word_state_def empty_state_def
      example_platform_def no_key_platform_def toLowerCase_def asciiLower_def asciiLowerUnit_def
      word_air_def
      word_minum_def js_def)






text \<open>
  C8. Searching with the empty string returns the whole word collection, unchanged and
  in the same order.
\<close>

theorem empty_search_is_identity:
  "filteredWords env (run (handleSearchChange []) st) = words st"
  by (simp add: filteredWords_def handleSearchChange_def toLowerCase_def js_includes_empty)

section \<open>Saving a word\<close>

text \<open>
  C10. When the input is empty or holds white space only, \<open>handleSaveWord\<close> makes no call
  at all: no request to the AI client, no error message, no change of the busy flag; the
  state (both collections and the input field among it) and the storage stay as they are.
\<close>

theorem blank_input_is_noop:
  assumes "\<forall>c \<in> set (newMyanmarWord st). isWhiteSpace c"
  shows "handleSaveWord env st = Some [] \<and> dispatch [] (st, sto) = (st, sto)"
  using assms by (simp add: handleSaveWord_def trim_blank dispatch_def save_effects_def)

theorem blank_input_is_noop_witness:
  "newMyanmarWord blank_input_state = [0x0020, 0x3000, 0x0009]
   \<and> handleSaveWord no_key_platform blank_input_state = Some []
   \<and> dispatch [] (blank_input_state, Map.empty) = (blank_input_state, Map.empty)"
proof -
  have blank: "\<forall>c \<in> set (newMyanmarWord blank_input_state). isWhiteSpace c"
    by (simp add: blank_input_state_def empty_state_def isWhiteSpace_def)
  show ?thesis
    using blank_input_is_noop [OF blank, of no_key_platform Map.empty]
    by (simp add: blank_input_state_def empty_state_def)
qed

text \<open>
  C1, as the code has it. When the response text of a translate invocation parses to an
  object whose \<open>indonesianTranslation\<close> is the string \<open>t\<close> and whose \<open>wordType\<close> is
  the string \<open>c\<close> (in either order), the handler sets the word collection to the old one
  with one record put in front: its Myanmar field is the input, its Indonesian field
  \<open>t\<close>, its type \<open>c\<close>, and its id the decimal text of the clock reading taken then. The
  id denotes that reading, so it differs from every stored id that denotes another one; it
  is not compared with the stored ids. The old records follow unchanged, and the sentence
  collection is not touched.
\<close>

theorem translate_success_prepends_word:
  assumes "trim (newMyanmarWord st) \<noteq> []"
    and "ai env = Some generateContent"
    and "generateContent (translateRequest (newMyanmarWord st)) = Inr (Some txt)"
    and "JSON_parse txt = Some jsonResponse"
    and "property jsonResponse (js ''indonesianTranslation'') = Some (JStr t)"
    and "property jsonResponse (js ''wordType'') = Some (JStr c)"
  shows "let newWord = \<lparr>w_id = toString (date_now env), w_myanmar = newMyanmarWord st,
                          w_indonesian = t, w_type = c\<rparr>;
             calls = [SetLoading True, SetError JSNull,
                      GenerateContent (translateRequest (newMyanmarWord st)),
                      SetWords (newWord # words st), SetNewMyanmarWord [], SetLoading False]
         in handleSaveWord env st = Some calls
            \<and> words (run calls st) = newWord # words st
            \<and> generatedSentences (run calls st) = generatedSentences st
            \<and> numberOf (w_id newWord) = date_now env
            \<and> ((\<forall>w \<in> set (words st). numberOf (w_id w) \<noteq> date_now env) \<longrightarrow>
                 w_id newWord \<notin> set (map w_id (words st)))"
proof -
  from assms(5) have "jsonResponse \<noteq> JNull"
    by (auto simp: property_def)
  with assms have "handleSaveWord env st =
      Some [SetLoading True, SetError JSNull,
            GenerateContent (translateRequest (newMyanmarWord st)),
            SetWords (\<lparr>w_id = toString (date_now env), w_myanmar = newMyanmarWord st,
                        w_indonesian = t, w_type = c\<rparr> # words st),
            SetNewMyanmarWord [], SetLoading False]"
    by (simp add: handleSaveWord_def saveWord_try_def)
  moreover have "(\<forall>w \<in> set (words st). numberOf (w_id w) \<noteq> date_now env) \<longrightarrow>
      toString (date_now env) \<notin> set (map w_id (words st))"
    using numberOf_toString [of "date_now env"] by auto
  ultimately show ?thesis
    by (simp add: numberOf_toString)
qed

theorem translate_success_prepends_word_witness:
  "handleSaveWord example_platform two_word_state =
     Some [SetLoading True, SetError JSNull,
           GenerateContent (translateRequest [0x1005, 0x102C, 0x1038]),
           SetWords [\<lparr>w_id = toString 1700000000000, w_myanmar = [0x1005, 0x102C, 0x1038],
                      w_indonesian = js ''makan'', w_type = js ''Verb''\<rparr>, word_minum, word_air],
           SetNewMyanmarWord [], SetLoading False]
   \<and> handleSaveWord swapped_platform two_word_state =
     Some [SetLoading True, SetError JSNull,
           GenerateContent (translateRequest [0x1005, 0x102C, 0x1038]),
           SetWords [\<lparr>w_id = toString 1700000000000, w_myanmar = [0x1005, 0x102C, 0x1038],
                      w_indonesian = js ''makan'', w_type = js ''Verb''\<rparr>, word_minum, word_air],
           SetNewMyanmarWord [], SetLoading False]
   \<and> numberOf (toString 1700000000000) = 1700000000000
   \<and> toString 1700000000000 \<notin> set (map w_id (words two_word_state))"
proof -
  have h1: "trim (newMyanmarWord two_word_state) \<noteq> []"
    using example_input_not_blank by (simp add: two_word_state_def empty_state_def)
  have h2: "ai example_platform = Some example_client"
    by (simp add: example_platform_def)
  have h3: "example_client (translateRequest (newMyanmarWord two_word_state)) = Inr (Some makan_text)"
    by (simp add: example_client_def translateRequest_def)
  have h5: "property (JObj [(js ''indonesianTranslation'', JStr (js ''makan'')),
                 (js ''wordType'', JStr (js ''Verb''))]) (js ''indonesianTranslation'') =
              Some (JStr (js ''makan''))"
    by (simp add: property_def get_prop_def js_keys_differ)
  have h6: "property (JObj [(js ''indonesianTranslation'', JStr (js ''makan'')),
                 (js ''wordType'', JStr (js ''Verb''))]) (js ''wordType'') =
              Some (JStr (js ''Verb''))"
    by (simp add: property_def get_prop_def js_keys_differ)
  have k2: "ai swapped_platform = Some (\<lambda>req. Inr (Some makan_text_swapped))"
    by (simp add: swapped_platform_def)
  have k3: "(\<lambda>req. Inr (Some makan_text_swapped)) (translateRequest (newMyanmarWord two_word_state)) =
      (Inr (Some makan_text_swapped) :: thrown + jsstring option)"
    by simp
  have k5: "property (JObj [(js ''wordType'', JStr (js ''Verb'')),
                 (js ''indonesianTranslation'', JStr (js ''makan''))]) (js ''indonesianTranslation'') =
              Some (JStr (js ''makan''))"
    by (simp add: property_def get_prop_def js_keys_differ js_keys_differ [symmetric])
  have k6: "property (JObj [(js ''wordType'', JStr (js ''Verb'')),
                 (js ''indonesianTranslation'', JStr (js ''makan''))]) (js ''wordType'') =
              Some (JStr (js ''Verb''))"
    by (simp add: property_def get_prop_def js_keys_differ js_keys_differ [symmetric])
  have old: "\<forall>w \<in> set (words two_word_state). numberOf (w_id w) \<noteq> date_now example_platform"
    by (simp add: two_word_state_def empty_state_def stored_ids numberOf_toString
        example_platform_def no_key_platform_def)
  have d: "date_now example_platform = 1700000000000" "date_now swapped_platform = 1700000000000"
    by (simp_all add: example_platform_def swapped_platform_def no_key_platform_def)
  have n: "newMyanmarWord two_word_state = [0x1005, 0x102C, 0x1038]"
    "words two_word_state = [word_minum, word_air]"
    by (simp_all add: two_word_state_def empty_state_def)
  note a = translate_success_prepends_word [OF h1 h2 h3 makan_parse h5 h6]
  note b = translate_success_prepends_word [OF h1 k2 k3 makan_swapped_parse k5 k6]
  from a old have a1: "handleSaveWord example_platform two_word_state =
     Some [SetLoading True, SetError JSNull,
           GenerateContent (translateRequest [0x1005, 0x102C, 0x1038]),
           SetWords [\<lparr>w_id = toString 1700000000000, w_myanmar = [0x1005, 0x102C, 0x1038],
                      w_indonesian = js ''makan'', w_type = js ''Verb''\<rparr>, word_minum, word_air],
           SetNewMyanmarWord [], SetLoading False]"
    and a2: "numberOf (toString 1700000000000) = 1700000000000"
    and a3: "toString 1700000000000 \<notin> set (map w_id (words two_word_state))"
    by (simp_all add: Let_def d n)
  from b have b1: "handleSaveWord swapped_platform two_word_state =
     Some [SetLoading True, SetError JSNull,
           GenerateContent (translateRequest [0x1005, 0x102C, 0x1038]),
           SetWords [\<lparr>w_id = toString 1700000000000, w_myanmar = [0x1005, 0x102C, 0x1038],
                      w_indonesian = js ''makan'', w_type = js ''Verb''\<rparr>, word_minum, word_air],
           SetNewMyanmarWord [], SetLoading False]"
    by (simp add: Let_def d n)
  from a1 b1 a2 a3 show ?thesis by (intro conjI)
qed

text \<open>
  C1 as stated fails when the clock has not moved on since the last save: the id of the
  new record is then the id of a stored one. The word of the example is saved twice in one
  millisecond.
\<close>

theorem fresh_id_counterexample:
  "handleSaveWord example_platform typed_state =
     Some [SetLoading True, SetError JSNull,
           GenerateContent (translateRequest [0x1005, 0x102C, 0x1038]),
           SetWords [makan_word], SetNewMyanmarWord [], SetLoading False]
   \<and> run [SetLoading True, SetError JSNull,
           GenerateContent (translateRequest [0x1005, 0x102C, 0x1038]),
           SetWords [makan_word], SetNewMyanmarWord [], SetLoading False] typed_state =
       once_saved_state
   \<and> words (run (handleInputChange [0x1005, 0x102C, 0x1038]) once_saved_state) = [makan_word]
   \<and> handleSaveWord example_platform
         (run (handleInputChange [0x1005, 0x102C, 0x1038]) once_saved_state) =
       Some [SetLoading True, SetError JSNull,
             GenerateContent (translateRequest [0x1005, 0x102C, 0x1038]),
             SetWords [makan_word, makan_word], SetNewMyanmarWord [], SetLoading False]
   \<and> w_id makan_word = toString (date_now example_platform)
   \<and> w_id makan_word \<in>
         set (map w_id (words (run (handleInputChange [0x1005, 0x102C, 0x1038]) once_saved_state)))"
proof -
  have b: "run [SetLoading True, SetError JSNull,
           GenerateContent (translateRequest [0x1005, 0x102C, 0x1038]),
           SetWords [makan_word], SetNewMyanmarWord [], SetLoading False] typed_state =
       once_saved_state"
    by (simp add: typed_state_def handleInputChange_def once_saved_state_def empty_state_def)
  have c: "words (run (handleInputChange [0x1005, 0x102C, 0x1038]) once_saved_state) = [makan_word]"
    by (simp add: handleInputChange_def once_saved_state_def empty_state_def)
  have d: "w_id makan_word = toString (date_now example_platform)"
    by (simp add: makan_word_def example_platform_def no_key_platform_def)
  have e: "w_id makan_word \<in>
         set (map w_id (words (run (handleInputChange [0x1005, 0x102C, 0x1038]) once_saved_state)))"
    by (simp only: c) simp
  from first_save b c second_save d e show ?thesis by (intro conjI)
qed




section \<open>Deleting\<close>

text \<open>
  C3, as the code has it. Deleting an id keeps exactly the records whose id differs, in
  their original relative order, in the word collection and in the sentence collection
  alike. When no record carries the id the collection is unchanged; when the ids of the
  collection are pairwise distinct and one record carries the id, exactly that record is
  removed. Nothing in the code makes ids distinct, and several records of one id are
  removed together.
\<close>

theorem delete_removes_records_of_that_id:
  "words (run (handleDeleteWord i st) st) = filter (\<lambda>w. w_id w \<noteq> i) (words st)
   \<and> subseq (words (run (handleDeleteWord i st) st)) (words st)
   \<and> (i \<notin> set (map w_id (words st)) \<longrightarrow> words (run (handleDeleteWord i st) st) = words st)
   \<and> (distinct (map w_id (words st)) \<and> i \<in> set (map w_id (words st)) \<longrightarrow>
        (\<exists>pre w post. words st = pre @ w # post \<and> w_id w = i \<and>
           words (run (handleDeleteWord i st) st) = pre @ post))
   \<and> generatedSentences (run (handleDeleteSentence j st) st) =
        filter (\<lambda>x. s_id x \<noteq> j) (generatedSentences st)
   \<and> subseq (generatedSentences (run (handleDeleteSentence j st) st)) (generatedSentences st)
   \<and> (j \<notin> set (map s_id (generatedSentences st)) \<longrightarrow>
        generatedSentences (run (handleDeleteSentence j st) st) = generatedSentences st)
   \<and> (distinct (map s_id (generatedSentences st)) \<and> j \<in> set (map s_id (generatedSentences st)) \<longrightarrow>
        (\<exists>pre x post. generatedSentences st = pre @ x # post \<and> s_id x = j \<and>
           generatedSentences (run (handleDeleteSentence j st) st) = pre @ post))"
  using filter_removes_the_one [of w_id "words st" i]
    filter_removes_the_one [of s_id "generatedSentences st" j]
    filter_absent [of i w_id "words st"] filter_absent [of j s_id "generatedSentences st"]
  by (simp add: handleDeleteWord_def handleDeleteSentence_def)

theorem delete_removes_records_of_that_id_witness:
  "words (run (handleDeleteWord (js ''1700000000001'') stocked_state) stocked_state) = [word_minum]
   \<and> words (run (handleDeleteWord (js ''17'') stocked_state) stocked_state) = [word_minum, word_air]
   \<and> generatedSentences (run (handleDeleteSentence (js ''1700000000004'') stocked_state) stocked_state)
       = [sentence_pagi]
   \<and> generatedSentences (run (handleDeleteSentence (js ''17'') stocked_state) stocked_state)
       = [sentence_minum, sentence_pagi]"
  using delete_removes_records_of_that_id [of "js ''1700000000001''" stocked_state "js ''1700000000004''"]
    delete_removes_records_of_that_id [of "js ''17''" stocked_state "js ''17''"]
  by (simp add: stocked_state_def two_word_state_def empty_state_def word_air_def word_minum_def
      sentence_pagi_def sentence_minum_def js_def)

text \<open>
  C3 as stated fails where two records share an id: deleting that id removes both. The
  state is one the program reaches by itself, with two saves in one millisecond of the
  clock.
\<close>

theorem delete_counterexample:
  "handleSaveWord example_platform typed_state =
     Some [SetLoading True, SetError JSNull,
           GenerateContent (translateRequest [0x1005, 0x102C, 0x1038]),
           SetWords [makan_word], SetNewMyanmarWord [], SetLoading False]
   \<and> run [SetLoading True, SetError JSNull,
           GenerateContent (translateRequest [0x1005, 0x102C, 0x1038]),
           SetWords [makan_word], SetNewMyanmarWord [], SetLoading False] typed_state =
       once_saved_state
   \<and> handleSaveWord example_platform
         (run (handleInputChange [0x1005, 0x102C, 0x1038]) once_saved_state) =
       Some [SetLoading True, SetError JSNull,
             GenerateContent (translateRequest [0x1005, 0x102C, 0x1038]),
             SetWords [makan_word, makan_word], SetNewMyanmarWord [], SetLoading False]
   \<and> run [SetLoading True, SetError JSNull,
           GenerateContent (translateRequest [0x1005, 0x102C, 0x1038]),
           SetWords [makan_word, makan_word], SetNewMyanmarWord [], SetLoading False]
         (run (handleInputChange [0x1005, 0x102C, 0x1038]) once_saved_state) =
       same_id_state
   \<and> words same_id_state = [makan_word, makan_word]
   \<and> words (run (handleDeleteWord (w_id makan_word) same_id_state) same_id_state) = []"
proof -
  have a: "handleSaveWord example_platform typed_state =
     Some [SetLoading True, SetError JSNull,
           GenerateContent (translateRequest [0x1005, 0x102C, 0x1038]),
           SetWords [makan_word], SetNewMyanmarWord [], SetLoading False]"
    using makan_parse example_input_not_blank
    by (simp add: handleSaveWord_def saveWord_try_def property_def get_prop_def js_keys_differ
        typed_state_def handleInputChange_def empty_state_def example_platform_def
        no_key_platform_def example_client_def translateRequest_def makan_word_def)
  have b: "run [SetLoading True, SetError JSNull,
           GenerateContent (translateRequest [0x1005, 0x102C, 0x1038]),
           SetWords [makan_word], SetNewMyanmarWord [], SetLoading False] typed_state =
       once_saved_state"
    by (simp add: typed_state_def handleInputChange_def once_saved_state_def empty_state_def)
  have c: "handleSaveWord example_platform
         (run (handleInputChange [0x1005, 0x102C, 0x1038]) once_saved_state) =
       Some [SetLoading True, SetError JSNull,
             GenerateContent (translateRequest [0x1005, 0x102C, 0x1038]),
             SetWords [makan_word, makan_word], SetNewMyanmarWord [], SetLoading False]"
    using makan_parse example_input_not_blank
    by (simp add: handleSaveWord_def saveWord_try_def property_def get_prop_def js_keys_differ
        once_saved_state_def handleInputChange_def empty_state_def example_platform_def
        no_key_platform_def example_client_def translateRequest_def makan_word_def)
  have d: "run [SetLoading True, SetError JSNull,
           GenerateContent (translateRequest [0x1005, 0x102C, 0x1038]),
           SetWords [makan_word, makan_word], SetNewMyanmarWord [], SetLoading False]
         (run (handleInputChange [0x1005, 0x102C, 0x1038]) once_saved_state) =
       same_id_state"
    by (simp add: once_saved_state_def handleInputChange_def same_id_state_def empty_state_def)
  have e: "words same_id_state = [makan_word, makan_word]"
    by (simp add: same_id_state_def empty_state_def)
  have f: "words (run (handleDeleteWord (w_id makan_word) same_id_state) same_id_state) = []"
    by (simp add: same_id_state_def empty_state_def handleDeleteWord_def)
  from a b c d e f show ?thesis by (intro conjI)
qed

section \<open>Generating a sentence\<close>

text \<open>
  C5, as the code has it. With fewer than two words stored, \<open>handleGenerateSentence\<close>
  makes no request to the AI client and leaves both collections and the storage as they
  are. The message it sets is the input-validation message when the client is configured,
  and the missing-key message when it is not: the key is checked first.
\<close>

theorem too_few_words_no_request:
  assumes "length (words st) < 2"
  shows "list_all (\<lambda>a. \<not> isGenerateContent a) (handleGenerateSentence env st)
     \<and> error (run (handleGenerateSentence env st) st) =
          JSString (if ai env = None then apiKeyMissing else needTwoWords)
     \<and> words (run (handleGenerateSentence env st) st) = words st
     \<and> generatedSentences (run (handleGenerateSentence env st) st) = generatedSentences st
     \<and> snd (dispatch (handleGenerateSentence env st) (st, sto)) = sto"
  using assms
  by (auto simp: handleGenerateSentence_def dispatch_def save_effects_def split: option.splits)

theorem too_few_words_no_request_witness:
  "handleGenerateSentence example_platform empty_state = [SetError (JSString needTwoWords)]
   \<and> error (run (handleGenerateSentence example_platform empty_state) empty_state) =
        JSString needTwoWords
   \<and> snd (dispatch (handleGenerateSentence example_platform empty_state) (empty_state, Map.empty))
        = Map.empty"
proof -
  have h: "length (words empty_state) < 2" by (simp add: empty_state_def)
  show ?thesis
    using too_few_words_no_request [OF h, of example_platform Map.empty]
    by (simp add: handleGenerateSentence_def example_platform_def empty_state_def)
qed

text \<open>
  C5 as stated fails when no API key is configured: the message is then the missing-key
  message, not the input-validation message.
\<close>

theorem too_few_words_counterexample:
  "length (words empty_state) < 2
   \<and> error (run (handleGenerateSentence no_key_platform empty_state) empty_state) =
        JSString apiKeyMissing
   \<and> apiKeyMissing \<noteq> needTwoWords"
  by (simp add: handleGenerateSentence_def no_key_platform_def empty_state_def apiKeyMissing_def
      needTwoWords_def js_def)

text \<open>
  C6, as the code has it. For every response text, the new sentence record's Myanmar field
  is the first newline-delimited line of the text with the white space at both ends
  removed, and its Indonesian field the second line treated the same way; a line the text
  does not have gives the empty string. The record is put in front of the sentence
  collection.
\<close>

theorem sentence_fields_are_trimmed_lines:
  assumes "ai env = Some generateContent"
    and "2 \<le> length (words st)"
    and "generateContent (sentenceRequest env st) = Inr (Some generatedText)"
  shows "generatedSentences (run (handleGenerateSentence env st) st) =
           \<lparr>s_id = toString (date_now env),
            s_myanmar = trim (line generatedText 0),
            s_indonesian = trim (line generatedText 1)\<rparr> # generatedSentences st"
proof -
  have t0: "trim [] = []" by (simp add: trim_def)
  obtain l ls where sp: "split_lf generatedText = l # ls"
    using split_lf_nonempty [of generatedText] by (cases "split_lf generatedText") auto
  have "newSentence env generatedText =
           \<lparr>s_id = toString (date_now env),
            s_myanmar = trim (line generatedText 0),
            s_indonesian = trim (line generatedText 1)\<rparr>"
    using sp t0 by (cases ls) (simp_all add: newSentence_def line_def)
  then show ?thesis
    using assms by (simp add: handleGenerateSentence_def)
qed

theorem sentence_fields_are_trimmed_lines_witness:
  "generatedSentences (run (handleGenerateSentence example_platform two_word_state) two_word_state) =
     [\<lparr>s_id = toString 1700000000000,
       s_myanmar = [0x1019, 0x1004, 0x103A, 0x1039, 0x1002, 0x101C, 0x102C, 0x1015, 0x102B],
       s_indonesian = js ''Selamat pagi''\<rparr>]"
proof -
  have h1: "ai example_platform = Some example_client"
    by (simp add: example_platform_def)
  have h2: "2 \<le> length (words two_word_state)"
    by (simp add: two_word_state_def empty_state_def)
  have h3: "example_client (sentenceRequest example_platform two_word_state) = Inr (Some pagi_text)"
    by (simp add: example_client_def sentenceRequest_def Let_def)
  show ?thesis
    using sentence_fields_are_trimmed_lines [OF h1 h2 h3]
    by (simp only: pagi_lines)
      (simp add: example_platform_def no_key_platform_def two_word_state_def empty_state_def)
qed

text \<open>
  C6 as stated fails on a response whose lines end in CR LF: the first newline-delimited
  line ends with the carriage return, and the Myanmar field does not.
\<close>

theorem sentence_fields_counterexample:
  "split_lf crlf_text = [js ''Apa kabar?'' @ [0x000D], js ''Apa kabar?'']
   \<and> generatedSentences (run (handleGenerateSentence crlf_platform two_word_state) two_word_state) =
       [\<lparr>s_id = toString 1700000000000, s_myanmar = js ''Apa kabar?'',
         s_indonesian = js ''Apa kabar?''\<rparr>]
   \<and> js ''Apa kabar?'' \<noteq> js ''Apa kabar?'' @ [0x000D]"
proof -
  have a: "split_lf crlf_text = [js ''Apa kabar?'' @ [0x000D], js ''Apa kabar?'']"
    by (rule crlf_lines(1))
  have b: "generatedSentences (run (handleGenerateSentence crlf_platform two_word_state) two_word_state) =
       [\<lparr>s_id = toString 1700000000000, s_myanmar = js ''Apa kabar?'',
         s_indonesian = js ''Apa kabar?''\<rparr>]"
    by (simp add: crlf_lines(2) handleGenerateSentence_def newSentence_def crlf_platform_def
        no_key_platform_def two_word_state_def empty_state_def)
  have c: "js ''Apa kabar?'' \<noteq> js ''Apa kabar?'' @ [0x000D]"
    by simp
  from a b c show ?thesis by (intro conjI)
qed

section \<open>Failures of the AI client\<close>

text \<open>
  What every failure has in common. When a translate invocation fails (the call throws,
  or the response text does not parse), \<open>handleSaveWord\<close> ends with the error cell holding
  the message of the thrown value; when a sentence-generation invocation fails,
  \<open>handleGenerateSentence\<close> ends with the error cell holding its fixed text, which the view
  shows. In both cases neither collection is set, the input field keeps its text, and
  nothing is written to the storage.
\<close>

lemma failure_keeps_collections:
  "(translateFailure env st = Some err \<longrightarrow>
      (let calls = [SetLoading True, SetError JSNull,
                    GenerateContent (translateRequest (newMyanmarWord st)),
                    SetError (shownMessage err), SetLoading False]
       in handleSaveWord env st = Some calls
          \<and> error (run calls st) = shownMessage err
          \<and> words (run calls st) = words st
          \<and> generatedSentences (run calls st) = generatedSentences st
          \<and> newMyanmarWord (run calls st) = newMyanmarWord st
          \<and> snd (dispatch calls (st, sto)) = sto))
   \<and> (generateFailure env st \<longrightarrow>
      (let calls = [SetLoading True, SetError JSNull, GenerateContent (sentenceRequest env st),
                    SetError (JSString failedToGenerate), SetLoading False]
       in handleGenerateSentence env st = calls
          \<and> errorBanner (run calls st) = Some (JSString failedToGenerate)
          \<and> words (run calls st) = words st
          \<and> generatedSentences (run calls st) = generatedSentences st
          \<and> snd (dispatch calls (st, sto)) = sto))"
proof (intro conjI impI)
  assume "translateFailure env st = Some err"
  then obtain g where "trim (newMyanmarWord st) \<noteq> []" and "ai env = Some g"
    and "saveWord_try env st (g (translateRequest (newMyanmarWord st))) = Some (Inl err)"
    using translateFailure_try by blast
  then show "let calls = [SetLoading True, SetError JSNull,
                    GenerateContent (translateRequest (newMyanmarWord st)),
                    SetError (shownMessage err), SetLoading False]
       in handleSaveWord env st = Some calls
          \<and> error (run calls st) = shownMessage err
          \<and> words (run calls st) = words st
          \<and> generatedSentences (run calls st) = generatedSentences st
          \<and> newMyanmarWord (run calls st) = newMyanmarWord st
          \<and> snd (dispatch calls (st, sto)) = sto"
    by (simp add: handleSaveWord_def saveWord_catch_def shownMessage_def dispatch_def
        save_effects_def)
next
  assume f: "generateFailure env st"
  then obtain g where g: "ai env = Some g" and n: "2 \<le> length (words st)"
    by (cases "ai env") (auto simp: generateFailure_def)
  from f g have "\<forall>t. g (sentenceRequest env st) \<noteq> Inr (Some t)"
    by (auto simp: generateFailure_def)
  then have "handleGenerateSentence env st =
      [SetLoading True, SetError JSNull, GenerateContent (sentenceRequest env st),
       SetError (JSString failedToGenerate), SetLoading False]"
    using g n by (cases "g (sentenceRequest env st)")
      (auto simp: handleGenerateSentence_def split: option.splits)
  moreover have "failedToGenerate \<noteq> []"
    by (simp add: failedToGenerate_def js_def)
  ultimately show "let calls = [SetLoading True, SetError JSNull,
                    GenerateContent (sentenceRequest env st),
                    SetError (JSString failedToGenerate), SetLoading False]
       in handleGenerateSentence env st = calls
          \<and> errorBanner (run calls st) = Some (JSString failedToGenerate)
          \<and> words (run calls st) = words st
          \<and> generatedSentences (run calls st) = generatedSentences st
          \<and> snd (dispatch calls (st, sto)) = sto"
    by (simp add: dispatch_def save_effects_def errorBanner_def truthy_def)
qed

text \<open>A call that throws an \<open>Error\<close> with a message: the view shows that message.\<close>

lemma failure_example:
  "handleSaveWord failing_platform stocked_state =
     Some [SetLoading True, SetError JSNull,
           GenerateContent (translateRequest [0x1005, 0x102C, 0x1038]),
           SetError (JSString (js ''Failed to fetch'')), SetLoading False]
   \<and> errorBanner (run [SetLoading True, SetError JSNull,
           GenerateContent (translateRequest [0x1005, 0x102C, 0x1038]),
           SetError (JSString (js ''Failed to fetch'')), SetLoading False] stocked_state) =
       Some (JSString (js ''Failed to fetch''))"
  using example_input_not_blank
  by (simp add: handleSaveWord_def saveWord_try_def saveWord_catch_def failing_platform_def
      no_key_platform_def stocked_state_def two_word_state_def empty_state_def errorBanner_def
      truthy_def js_def)

text \<open>
  C9. The claim asks for a descriptive message that the user sees after every failure.
  \<open>handleGenerateSentence\<close> gives one: at a call that rejects with an \<open>Error\<close> of empty
  message it shows its fixed text. \<open>handleSaveWord\<close> prepares a fixed text as well, but
  overwrites it with the message of the thrown value without looking at it. At the same
  rejection the error cell ends as the empty string, and at a rejection with an object whose
  \<open>response.data.error.message\<close> is \<open>undefined\<close> it ends as \<open>undefined\<close>: both are
  falsy, the view shows no banner, and the user sees nothing. The collections and the input
  stay as they were, as the claim says.
\<close>

theorem failure_message_lost:
  "handleSaveWord silent_platform two_word_state =
     Some [SetLoading True, SetError JSNull,
           GenerateContent (translateRequest [0x1005, 0x102C, 0x1038]),
           SetError (JSString []), SetLoading False]
   \<and> errorBanner (run [SetLoading True, SetError JSNull,
           GenerateContent (translateRequest [0x1005, 0x102C, 0x1038]),
           SetError (JSString []), SetLoading False] two_word_state) = None
   \<and> handleSaveWord unset_message_platform two_word_state =
       Some [SetLoading True, SetError JSNull,
             GenerateContent (translateRequest [0x1005, 0x102C, 0x1038]),
             SetError JSUndefined, SetLoading False]
   \<and> errorBanner (run [SetLoading True, SetError JSNull,
           GenerateContent (translateRequest [0x1005, 0x102C, 0x1038]),
           SetError JSUndefined, SetLoading False] two_word_state) = None
   \<and> words (run [SetLoading True, SetError JSNull,
           GenerateContent (translateRequest [0x1005, 0x102C, 0x1038]),
           SetError (JSString []), SetLoading False] two_word_state) = words two_word_state
   \<and> errorBanner (run (handleGenerateSentence silent_platform two_word_state) two_word_state) =
       Some (JSString failedToGenerate)"
proof -
  have a: "handleSaveWord silent_platform two_word_state =
     Some [SetLoading True, SetError JSNull,
           GenerateContent (translateRequest [0x1005, 0x102C, 0x1038]),
           SetError (JSString []), SetLoading False]"
    using example_input_not_blank
    by (simp add: handleSaveWord_def saveWord_try_def saveWord_catch_def silent_platform_def
        no_key_platform_def two_word_state_def empty_state_def)
  have b: "errorBanner (run [SetLoading True, SetError JSNull,
           GenerateContent (translateRequest [0x1005, 0x102C, 0x1038]),
           SetError (JSString []), SetLoading False] two_word_state) = None"
    by (simp add: errorBanner_def truthy_def)
  have c: "handleSaveWord unset_message_platform two_word_state =
       Some [SetLoading True, SetError JSNull,
             GenerateContent (translateRequest [0x1005, 0x102C, 0x1038]),
             SetError JSUndefined, SetLoading False]"
    using example_input_not_blank
    by (simp add: handleSaveWord_def saveWord_try_def saveWord_catch_def
        unset_message_platform_def no_key_platform_def two_word_state_def empty_state_def)
  have d: "errorBanner (run [SetLoading True, SetError JSNull,
           GenerateContent (translateRequest [0x1005, 0x102C, 0x1038]),
           SetError JSUndefined, SetLoading False] two_word_state) = None"
    by (simp add: errorBanner_def truthy_def)
  have e: "words (run [SetLoading True, SetError JSNull,
           GenerateContent (translateRequest [0x1005, 0x102C, 0x1038]),
           SetError (JSString []), SetLoading False] two_word_state) = words two_word_state"
    by simp
  have "failedToGenerate \<noteq> []"
    by (simp add: failedToGenerate_def js_def)
  then have f: "errorBanner (run (handleGenerateSentence silent_platform two_word_state)
        two_word_state) = Some (JSString failedToGenerate)"
    by (simp add: handleGenerateSentence_def silent_platform_def no_key_platform_def
        two_word_state_def empty_state_def errorBanner_def truthy_def)
  from a b c d e f show ?thesis by (intro conjI)
qed

section \<open>Persistence\<close>

text \<open>
  C2. After the calls of a handler have taken effect: when the word collection was set,
  the storage holds under \<open>words\<close> the \<open>JSON.stringify\<close> text of the word collection as
  it is after the calls, and loading from that storage gives back exactly that
  collection; when the sentence collection was set, the same holds for \<open>sentences\<close>.
\<close>

theorem persistence_round_trip:
  assumes "dispatch calls (st, sto) = (st', sto')"
  shows "st' = run calls st
     \<and> (list_ex isSetWords calls \<longrightarrow>
          sto' (js ''words'') = Some (JSON_stringify (JArr (map word_json (words st'))))
          \<and> load_words sto' = Loaded (words st'))
     \<and> (list_ex isSetGeneratedSentences calls \<longrightarrow>
          sto' (js ''sentences'') =
            Some (JSON_stringify (JArr (map sentence_json (generatedSentences st'))))
          \<and> load_sentences sto' = Loaded (generatedSentences st'))"
proof (intro conjI impI)
  from assms show st': "st' = run calls st"
    by (simp add: dispatch_def Let_def)
  from assms have sto': "sto' = save_effects calls st' sto"
    by (auto simp: dispatch_def Let_def)
  {
    assume "list_ex isSetWords calls"
    then show w: "sto' (js ''words'') = Some (JSON_stringify (JArr (map word_json (words st'))))"
      unfolding sto' save_effects_def Let_def
      using storage_keys_differ by (simp del: JSON_stringify.simps)
    then show "load_words sto' = Loaded (words st')"
      by (rule load_words_after_save)
  }
  {
    assume "list_ex isSetGeneratedSentences calls"
    then show s: "sto' (js ''sentences'') =
            Some (JSON_stringify (JArr (map sentence_json (generatedSentences st'))))"
      unfolding sto' save_effects_def Let_def
      by (simp del: JSON_stringify.simps)
    then show "load_sentences sto' = Loaded (generatedSentences st')"
      by (rule load_sentences_after_save)
  }
qed

theorem persistence_round_trip_witness:
  "load_words (snd (dispatch
       (handleDeleteWord (js ''1700000000002'') stocked_state @
        handleDeleteSentence (js ''1700000000004'') stocked_state)
       (stocked_state, Map.empty))) = Loaded [word_air]
   \<and> load_sentences (snd (dispatch
       (handleDeleteWord (js ''1700000000002'') stocked_state @
        handleDeleteSentence (js ''1700000000004'') stocked_state)
       (stocked_state, Map.empty))) = Loaded [sentence_pagi]"
proof -
  let ?calls = "handleDeleteWord (js ''1700000000002'') stocked_state @
                handleDeleteSentence (js ''1700000000004'') stocked_state"
  let ?p = "dispatch ?calls (stocked_state, Map.empty)"
  have d: "dispatch ?calls (stocked_state, Map.empty) = (fst ?p, snd ?p)"
    by simp
  have w: "list_ex isSetWords ?calls"
    by (simp add: handleDeleteWord_def)
  have s: "list_ex isSetGeneratedSentences ?calls"
    by (simp add: handleDeleteWord_def handleDeleteSentence_def)
  have ws: "words (fst ?p) = [word_air]"
    by (simp add: dispatch_def Let_def handleDeleteWord_def handleDeleteSentence_def
        stocked_state_def two_word_state_def empty_state_def word_air_def word_minum_def js_def)
  have ss: "generatedSentences (fst ?p) = [sentence_pagi]"
    by (simp add: dispatch_def Let_def handleDeleteWord_def handleDeleteSentence_def
        stocked_state_def two_word_state_def empty_state_def sentence_pagi_def sentence_minum_def
        js_def)
  note r = persistence_round_trip [OF d]
  from r w have "load_words (snd ?p) = Loaded (words (fst ?p))"
    by blast
  then have lw: "load_words (snd ?p) = Loaded [word_air]"
    by (simp only: ws)
  from r s have "load_sentences (snd ?p) = Loaded (generatedSentences (fst ?p))"
    by blast
  then have ls: "load_sentences (snd ?p) = Loaded [sentence_pagi]"
    by (simp only: ss)
  from lw ls show ?thesis by (rule conjI)
qed

end
